theory Spec2Isabelle
  imports Main
begin

section \<open>The version check script \<^verbatim>\<open>src-tauri/check_versions_temp.py\<close>\<close>

text \<open>
  The script defines one function, \<^verbatim>\<open>v(p, i)\<close>, and prints the JSON rendering of a
  dictionary of four calls of it:
  \<^verbatim>\<open>
  def v(p, i):
      r = subprocess.run([sys.executable, "-m", "pip", "show", p],
                         stdout=subprocess.PIPE, text=True)
      for l in r.stdout.splitlines():
          if l.lower().startswith("version:"): return l.split(":",1)[1].strip()
      try:
          return __import__(i).__version__
      except: return "not installed"
  print(json.dumps({"rvc-python":v("rvc-python","rvc"), "edge-tts":v("edge-tts","edge_tts"),
                    "torch":v("torch","torch"), "torchaudio":v("torchaudio","torchaudio")},
                   indent=2))
  \<close>
  Everything the script reads from outside (the interpreter's path, what the pip subprocess
  does, what an import does) is a field of an environment; what it does to the outside
  (spawning the query, importing, printing) is recorded in a list of events; an exception
  that is not caught is the \<open>Inl\<close> of a sum.
\<close>

subsection \<open>The methods of \<^verbatim>\<open>str\<close> the script calls\<close>

text \<open>
  A Python \<^verbatim>\<open>str\<close> is a sequence of code points. The model is \<^typ>\<open>string\<close>, whose
  characters are the code points below 256; the tables of \<^verbatim>\<open>str.isspace\<close>,
  \<^verbatim>\<open>str.lower\<close> and of the line boundaries of \<^verbatim>\<open>str.splitlines\<close> are Python's,
  restricted to that range.
\<close>

definition is_space :: "char \<Rightarrow> bool" where
  "is_space c =
     (c \<in> set [CHR 0x09, CHR 0x0A, CHR 0x0B, CHR 0x0C, CHR 0x0D, CHR 0x1C, CHR 0x1D,
                CHR 0x1E, CHR 0x1F, CHR 0x20, CHR 0x85, CHR 0xA0])"

definition is_linebreak :: "char \<Rightarrow> bool" where
  "is_linebreak c =
     (c \<in> set [CHR 0x0A, CHR 0x0B, CHR 0x0C, CHR 0x0D, CHR 0x1C, CHR 0x1D, CHR 0x1E,
                CHR 0x85])"

text \<open>
  \<^verbatim>\<open>s.splitlines()\<close>: the lines of \<open>s\<close> without their line breaks; a carriage return
  directly followed by a line feed is one break; no empty line is added after a final break.
\<close>

function splitlines :: "string \<Rightarrow> string list" where
  "splitlines s =
     (if s = [] then []
      else takeWhile (\<lambda>c. \<not> is_linebreak c) s #
           (case dropWhile (\<lambda>c. \<not> is_linebreak c) s of
              [] \<Rightarrow> []
            | c # r \<Rightarrow>
                (case r of
                   [] \<Rightarrow> splitlines r
                 | d # r' \<Rightarrow>
                     if c = CHR 0x0D \<and> d = CHR 0x0A then splitlines r' else splitlines r)))"
  by pat_completeness auto
termination
proof (relation "measure length")
  show "wf (measure length)" by simp
next
  fix s :: string and c r
  assume "dropWhile (\<lambda>c. \<not> is_linebreak c) s = c # r"
  then have "length (dropWhile (\<lambda>c. \<not> is_linebreak c) s) = Suc (length r)" by simp
  moreover have "length (dropWhile (\<lambda>c. \<not> is_linebreak c) s) \<le> length s"
    by (rule length_dropWhile_le)
  ultimately show "(r, s) \<in> measure length" by simp
next
  fix s :: string and c r d r'
  assume "dropWhile (\<lambda>c. \<not> is_linebreak c) s = c # r" "r = d # r'"
  then have "length (dropWhile (\<lambda>c. \<not> is_linebreak c) s) = Suc (Suc (length r'))" by simp
  moreover have "length (dropWhile (\<lambda>c. \<not> is_linebreak c) s) \<le> length s"
    by (rule length_dropWhile_le)
  ultimately show "(r', s) \<in> measure length" by simp
next
  fix s :: string and c r d r'
  assume "dropWhile (\<lambda>c. \<not> is_linebreak c) s = c # r" "r = d # r'"
  then have "length (dropWhile (\<lambda>c. \<not> is_linebreak c) s) = Suc (Suc (length r'))" by simp
  moreover have "length (dropWhile (\<lambda>c. \<not> is_linebreak c) s) \<le> length s"
    by (rule length_dropWhile_le)
  ultimately show "(r, s) \<in> measure length" using \<open>r = d # r'\<close> by simp
qed

declare splitlines.simps [simp del]

text \<open>\<^verbatim>\<open>s.lower()\<close>: A-Z and the capital letters of Latin-1 move up by 32.\<close>

definition lower_char :: "char \<Rightarrow> char" where
  "lower_char c =
     (let n = (of_char c :: nat)
      in if (65 \<le> n \<and> n \<le> 90) \<or> (192 \<le> n \<and> n \<le> 222 \<and> n \<noteq> 215)
         then char_of (n + 32) else c)"

definition lower :: "string \<Rightarrow> string" where
  "lower s = map lower_char s"

text \<open>\<^verbatim>\<open>s.startswith(prefix)\<close>.\<close>

definition startswith :: "string \<Rightarrow> string \<Rightarrow> bool" where
  "startswith s pre = (take (length pre) s = pre)"

text \<open>
  \<^verbatim>\<open>s.split(sep, 1)\<close> for a separator of one character: the text before the first
  separator and the text after it, or \<open>s\<close> alone when it has no separator.
\<close>

definition split1 :: "char \<Rightarrow> string \<Rightarrow> string list" where
  "split1 sep s =
     (case dropWhile (\<lambda>c. c \<noteq> sep) s of
        [] \<Rightarrow> [s]
      | _ # r \<Rightarrow> [takeWhile (\<lambda>c. c \<noteq> sep) s, r])"

text \<open>\<^verbatim>\<open>s.strip()\<close>: the white space at both ends is removed.\<close>

definition strip :: "string \<Rightarrow> string" where
  "strip s = rev (dropWhile is_space (rev (dropWhile is_space s)))"

subsection \<open>Exceptions and values\<close>

datatype exn =
    OSError | FileNotFoundError | PermissionError | UnicodeDecodeError | MemoryError
  | IndexError | TypeError | ImportError | ModuleNotFoundError | AttributeError
  | KeyboardInterrupt | SystemExit | OtherError string

text \<open>\<^verbatim>\<open>xs[k]\<close> for \<open>k \<ge> 0\<close>: IndexError out of range.\<close>

definition index :: "'a list \<Rightarrow> nat \<Rightarrow> exn + 'a" where
  "index xs k = (if k < length xs then Inr (xs ! k) else Inl IndexError)"

text \<open>
  The objects a \<^verbatim>\<open>__version__\<close> attribute can hold, and the dictionary the script
  builds. \<open>PList\<close> stands for a list or a tuple (\<^verbatim>\<open>json\<close> renders them alike), \<open>PDict\<close> for
  a dictionary with string keys, in insertion order, and \<open>PObj\<close> for an object of a class
  \<^verbatim>\<open>json\<close> has no rendering for, with the name of its class. A float is not-a-number, an
  infinity, or a finite number, given by the text \<^verbatim>\<open>float.__repr__\<close> prints for it (such
  as \<^verbatim>\<open>2.1\<close> or \<^verbatim>\<open>1e+16\<close>).
\<close>

datatype pyfloat = Finite string | NaN | PosInf | NegInf

datatype pyval =
    PNone | PBool bool | PInt int | PFloat pyfloat | PStr string
  | PList "pyval list" | PDict "(string \<times> pyval) list" | PObj string

subsection \<open>The environment and the events\<close>

text \<open>
  \<open>subprocess_run env argv\<close> is what \<^verbatim>\<open>subprocess.run(argv, stdout=PIPE, text=True)\<close>
  does: it raises (the command cannot be launched, its output cannot be decoded) or it
  returns the completed process, with its exit status and its captured standard output.
  \<open>import_module env i\<close> is what \<^verbatim>\<open>__import__(i)\<close> does: it raises or returns a module, and
  reading the module's \<^verbatim>\<open>__version__\<close> raises (AttributeError when there is none) or gives
  an object. The script runs each query and each import once, so a function of the
  argument gives every outcome.
\<close>

datatype completed = CompletedProcess (returncode: int) (stdout: string)

datatype pymodule = Module (version_attr: "exn + pyval")

record env =
  sys_executable :: string
  subprocess_run :: "string list \<Rightarrow> exn + completed"
  import_module :: "string \<Rightarrow> exn + pymodule"

datatype event = Spawn "string list" | Import string | Print string

type_synonym 'a io = "event list \<times> (exn + 'a)"

text \<open>
  A computation gives the events it caused and either the exception that ended it or its
  value. \<open>io_bind m f\<close> runs \<open>m\<close> and then \<open>f\<close> on its value; an exception of \<open>m\<close> ends
  the sequence.
\<close>

definition io_bind :: "'a io \<Rightarrow> ('a \<Rightarrow> 'b io) \<Rightarrow> 'b io" where
  "io_bind m f =
     (case m of
        (t, Inl e) \<Rightarrow> (t, Inl e)
      | (t, Inr x) \<Rightarrow> (case f x of (t', r) \<Rightarrow> (t @ t', r)))"

subsection \<open>The lookup \<^verbatim>\<open>v(p, i)\<close>\<close>

definition pip_show :: "env \<Rightarrow> string \<Rightarrow> string list" where
  "pip_show env p = [sys_executable env, ''-m'', ''pip'', ''show'', p]"

definition is_version_line :: "string \<Rightarrow> bool" where
  "is_version_line l = startswith (lower l) ''version:''"

text \<open>
  The \<^verbatim>\<open>for\<close> loop over the lines: \<open>None\<close> when it ends without returning, otherwise
  what the \<^verbatim>\<open>return\<close> of the first matching line gives (the \<^verbatim>\<open>[1]\<close> raises IndexError
  on a list of one element).
\<close>

fun scan :: "string list \<Rightarrow> (exn + string) option" where
  "scan [] = None"
| "scan (l # ls) =
     (if is_version_line l
      then Some (case index (split1 (CHR '':'') l) 1 of
                   Inl e \<Rightarrow> Inl e
                 | Inr t \<Rightarrow> Inr (strip t))
      else scan ls)"

text \<open>
  The \<^verbatim>\<open>try\<close> block: a bare \<^verbatim>\<open>except:\<close> catches every exception, whatever its class.
\<close>

definition fallback :: "env \<Rightarrow> string \<Rightarrow> pyval" where
  "fallback env i =
     (case import_module env i of
        Inl e \<Rightarrow> PStr ''not installed''
      | Inr m \<Rightarrow>
          (case version_attr m of
             Inl e \<Rightarrow> PStr ''not installed''
           | Inr x \<Rightarrow> x))"

definition v :: "env \<Rightarrow> string \<Rightarrow> string \<Rightarrow> pyval io" where
  "v env p i =
     (case subprocess_run env (pip_show env p) of
        Inl e \<Rightarrow> ([Spawn (pip_show env p)], Inl e)
      | Inr r \<Rightarrow>
          (case scan (splitlines (stdout r)) of
             Some (Inl e) \<Rightarrow> ([Spawn (pip_show env p)], Inl e)
           | Some (Inr s) \<Rightarrow> ([Spawn (pip_show env p)], Inr (PStr s))
           | None \<Rightarrow> ([Spawn (pip_show env p), Import i], Inr (fallback env i))))"

subsection \<open>\<^verbatim>\<open>json.dumps(obj, indent=2)\<close>\<close>

text \<open>
  A string is rendered between double quotes; with the default \<^verbatim>\<open>ensure_ascii=True\<close>
  the double quote, the backslash and every character outside the printable ASCII range
  \<open>0x20..0x7E\<close> are escaped, the latter as \<^verbatim>\<open>\u00XX\<close> in lower-case hexadecimal where
  there is no short form.
\<close>

definition hexdigit :: "nat \<Rightarrow> char" where
  "hexdigit k = ''0123456789abcdef'' ! k"

definition escape_char :: "char \<Rightarrow> string" where
  "escape_char c =
     (if c = CHR 0x22 then [CHR 0x5C, CHR 0x22]
      else if c = CHR 0x5C then [CHR 0x5C, CHR 0x5C]
      else if c = CHR 0x0A then [CHR 0x5C, CHR ''n'']
      else if c = CHR 0x0D then [CHR 0x5C, CHR ''r'']
      else if c = CHR 0x09 then [CHR 0x5C, CHR ''t'']
      else if c = CHR 0x08 then [CHR 0x5C, CHR ''b'']
      else if c = CHR 0x0C then [CHR 0x5C, CHR ''f'']
      else if 32 \<le> (of_char c :: nat) \<and> (of_char c :: nat) \<le> 126 then [c]
      else [CHR 0x5C, CHR ''u'', CHR ''0'', CHR ''0'',
            hexdigit (of_char c div 16), hexdigit (of_char c mod 16)])"

definition encode_basestring_ascii :: "string \<Rightarrow> string" where
  "encode_basestring_ascii s = CHR 0x22 # concat (map escape_char s) @ [CHR 0x22]"

text \<open>\<^verbatim>\<open>int.__repr__\<close>: the decimal digits, with a minus sign below zero.\<close>

fun digits :: "nat \<Rightarrow> string" where
  "digits n =
     (if n < 10 then [char_of (48 + n)] else digits (n div 10) @ [char_of (48 + n mod 10)])"

declare digits.simps [simp del]

definition int_repr :: "int \<Rightarrow> string" where
  "int_repr n = (if n < 0 then CHR ''-'' # digits (nat (- n)) else digits (nat n))"

text \<open>\<^verbatim>\<open>sep.join(xs)\<close>.\<close>

fun join :: "string \<Rightarrow> string list \<Rightarrow> string" where
  "join sep [] = []"
| "join sep [x] = x"
| "join sep (x # y # ys) = x @ sep @ join sep (y # ys)"

definition newline_indent :: "nat \<Rightarrow> string" where
  "newline_indent lvl = CHR 0x0A # replicate (2 * lvl) (CHR '' '')"

text \<open>
  \<^verbatim>\<open>floatstr\<close> of the encoder: a finite float is rendered as \<^verbatim>\<open>float.__repr__\<close> prints
  it; \<^verbatim>\<open>allow_nan\<close> being left at its default, the other floats are rendered as
  \<^verbatim>\<open>NaN\<close>, \<^verbatim>\<open>Infinity\<close> and \<^verbatim>\<open>-Infinity\<close>, which the JSON grammar does not have.
\<close>

fun floatstr :: "pyfloat \<Rightarrow> string" where
  "floatstr NaN = ''NaN''"
| "floatstr PosInf = ''Infinity''"
| "floatstr NegInf = ''-Infinity''"
| "floatstr (Finite r) = r"

text \<open>
  The encoder at nesting depth \<open>lvl\<close>. An empty container is \<^verbatim>\<open>[]\<close> or \<^verbatim>\<open>{}\<close>;
  otherwise each item stands on a line of its own, indented by two spaces per level, the
  items separated by a comma and a key from its value by a colon and a space. An object of
  a class the encoder does not know raises TypeError.

  Two limits of the interpreter are not part of \<open>encode\<close>, which gives the text where they
  apply: \<^verbatim>\<open>json.dumps\<close> raises ValueError on an integer of more decimal digits than the
  interpreter converts to text (4300 unless configured otherwise), and RecursionError on
  containers nested deeper than the interpreter's stack allows. Neither limit touches a
  string: the general statements below that conclude that the script succeeds are made for
  the runs whose four values are strings, and the example runs stay far from both limits.
\<close>

fun encode :: "nat \<Rightarrow> pyval \<Rightarrow> exn + string"
  and encode_items :: "nat \<Rightarrow> pyval list \<Rightarrow> exn + string list"
  and encode_pairs :: "nat \<Rightarrow> (string \<times> pyval) list \<Rightarrow> exn + string list"
where
  "encode lvl PNone = Inr ''null''"
| "encode lvl (PBool b) = Inr (if b then ''true'' else ''false'')"
| "encode lvl (PInt n) = Inr (int_repr n)"
| "encode lvl (PFloat f) = Inr (floatstr f)"
| "encode lvl (PStr s) = Inr (encode_basestring_ascii s)"
| "encode lvl (PList xs) =
     (if xs = [] then Inr ''[]''
      else case encode_items (Suc lvl) xs of
             Inl e \<Rightarrow> Inl e
           | Inr ss \<Rightarrow>
               Inr (''['' @ newline_indent (Suc lvl)
                    @ join ('','' @ newline_indent (Suc lvl)) ss
                    @ newline_indent lvl @ '']''))"
| "encode lvl (PDict kvs) =
     (if kvs = [] then Inr ''{}''
      else case encode_pairs (Suc lvl) kvs of
             Inl e \<Rightarrow> Inl e
           | Inr ss \<Rightarrow>
               Inr (''{'' @ newline_indent (Suc lvl)
                    @ join ('','' @ newline_indent (Suc lvl)) ss
                    @ newline_indent lvl @ ''}''))"
| "encode lvl (PObj c) = Inl TypeError"
| "encode_items lvl [] = Inr []"
| "encode_items lvl (x # xs) =
     (case encode lvl x of
        Inl e \<Rightarrow> Inl e
      | Inr s \<Rightarrow>
          (case encode_items lvl xs of
             Inl e \<Rightarrow> Inl e
           | Inr ss \<Rightarrow> Inr (s # ss)))"
| "encode_pairs lvl [] = Inr []"
| "encode_pairs lvl (kx # kvs) =
     (case encode lvl (snd kx) of
        Inl e \<Rightarrow> Inl e
      | Inr s \<Rightarrow>
          (case encode_pairs lvl kvs of
             Inl e \<Rightarrow> Inl e
           | Inr ss \<Rightarrow> Inr ((encode_basestring_ascii (fst kx) @ '': '' @ s) # ss)))"

definition json_dumps :: "pyval \<Rightarrow> string io" where
  "json_dumps x = ([], encode 0 x)"

subsection \<open>The script\<close>

text \<open>
  \<^verbatim>\<open>print(s)\<close> writes \<open>s\<close> and a line feed to the standard output; the write is taken to
  succeed.
\<close>

definition print :: "string \<Rightarrow> unit io" where
  "print s = ([Print (s @ [CHR 0x0A])], Inr ())"

text \<open>
  The dictionary display evaluates its four values from left to right, so the four lookups
  run in that order and the first uncaught exception ends the script.
\<close>

definition main :: "env \<Rightarrow> unit io" where
  "main env =
     io_bind (v env ''rvc-python'' ''rvc'') (\<lambda>a.
     io_bind (v env ''edge-tts'' ''edge_tts'') (\<lambda>b.
     io_bind (v env ''torch'' ''torch'') (\<lambda>c.
     io_bind (v env ''torchaudio'' ''torchaudio'') (\<lambda>d.
     io_bind (json_dumps (PDict [(''rvc-python'', a), (''edge-tts'', b),
                                 (''torch'', c), (''torchaudio'', d)]))
       print))))"

text \<open>What a run wrote to its standard output, and whether it ended without an exception.\<close>

fun printed :: "event list \<Rightarrow> string" where
  "printed [] = []"
| "printed (Print s # t) = s @ printed t"
| "printed (_ # t) = printed t"

definition exits_ok :: "'a io \<Rightarrow> bool" where
  "exits_ok r = (case snd r of Inl e \<Rightarrow> False | Inr x \<Rightarrow> True)"

subsection \<open>JSON texts\<close>

text \<open>
  What a well-formed JSON text is, and what it denotes, is given by a reader of the JSON
  grammar (RFC 8259): white space, the literals, strings with their escapes, arrays and
  objects, and numbers: an optional minus sign, an integer part (a single zero, or digits
  that do not begin with a zero), then optionally a fraction and an exponent. An integer
  denotes its value (\<open>JNum\<close>); a
  number with a fraction or an exponent is kept as its text (\<open>JReal\<close>). A \<^verbatim>\<open>\u\<close> escape
  is read when its code point is below 256. The first argument of \<open>read_value\<close> bounds
  the nesting depth; \<open>json_loads\<close> gives it the length of the text, which no nesting
  exceeds.
\<close>

datatype json =
    JNull | JBool bool | JNum int | JReal string | JStr string
  | JArr "json list" | JObj "(string \<times> json) list"

definition is_ws :: "char \<Rightarrow> bool" where
  "is_ws c = (c \<in> set [CHR 0x20, CHR 0x09, CHR 0x0A, CHR 0x0D])"

definition skip_ws :: "string \<Rightarrow> string" where
  "skip_ws s = dropWhile is_ws s"

definition hexval :: "char \<Rightarrow> nat option" where
  "hexval c =
     (let n = (of_char c :: nat)
      in if 48 \<le> n \<and> n \<le> 57 then Some (n - 48)
         else if 97 \<le> n \<and> n \<le> 102 then Some (n - 87)
         else if 65 \<le> n \<and> n \<le> 70 then Some (n - 55)
         else None)"

definition unescape :: "char \<Rightarrow> char option" where
  "unescape c =
     (if c = CHR 0x22 then Some (CHR 0x22)
      else if c = CHR 0x5C then Some (CHR 0x5C)
      else if c = CHR ''/'' then Some (CHR ''/'')
      else if c = CHR ''b'' then Some (CHR 0x08)
      else if c = CHR ''f'' then Some (CHR 0x0C)
      else if c = CHR ''n'' then Some (CHR 0x0A)
      else if c = CHR ''r'' then Some (CHR 0x0D)
      else if c = CHR ''t'' then Some (CHR 0x09)
      else None)"

definition cons_fst :: "'a \<Rightarrow> ('a list \<times> 'b) option \<Rightarrow> ('a list \<times> 'b) option" where
  "cons_fst x r = (case r of None \<Rightarrow> None | Some (xs, rest) \<Rightarrow> Some (x # xs, rest))"

definition hex4 :: "char \<Rightarrow> char \<Rightarrow> char \<Rightarrow> char \<Rightarrow> nat option" where
  "hex4 a b c d =
     (case (hexval a, hexval b, hexval c, hexval d) of
        (Some x, Some y, Some z, Some w) \<Rightarrow> Some (((x * 16 + y) * 16 + z) * 16 + w)
      | _ \<Rightarrow> None)"

fun read_chars :: "string \<Rightarrow> (string \<times> string) option" where
  "read_chars [] = None"
| "read_chars (c # cs) =
     (if c = CHR 0x22 then Some ([], cs)
      else if c = CHR 0x5C then
        (case cs of
           [] \<Rightarrow> None
         | e # r \<Rightarrow>
             if e = CHR ''u'' then
               (case r of
                  h1 # h2 # h3 # h4 # r' \<Rightarrow>
                    (case hex4 h1 h2 h3 h4 of
                       None \<Rightarrow> None
                     | Some n \<Rightarrow> if n < 256 then cons_fst (char_of n) (read_chars r') else None)
                | _ \<Rightarrow> None)
             else (case unescape e of
                     None \<Rightarrow> None
                   | Some x \<Rightarrow> cons_fst x (read_chars r)))
      else if (of_char c :: nat) < 32 then None
      else cons_fst c (read_chars cs))"

definition is_digit :: "char \<Rightarrow> bool" where
  "is_digit c = (48 \<le> (of_char c :: nat) \<and> (of_char c :: nat) \<le> 57)"

definition digits_value :: "string \<Rightarrow> nat" where
  "digits_value ds = foldl (\<lambda>acc c. acc * 10 + (of_char c - 48)) 0 ds"

definition read_nat :: "string \<Rightarrow> (nat \<times> string) option" where
  "read_nat s =
     (let ds = takeWhile is_digit s
      in if ds = [] \<or> (hd ds = CHR ''0'' \<and> length ds > 1) then None
         else Some (digits_value ds, dropWhile is_digit s))"

text \<open>
  The fraction and the exponent at the head of a text, when there is one: what is left
  after it. A point or an \<^verbatim>\<open>e\<close> that no digit follows is no part of the number.
\<close>

definition skip_fraction :: "string \<Rightarrow> string" where
  "skip_fraction s =
     (case s of
        [] \<Rightarrow> s
      | c # r \<Rightarrow>
          if c = CHR ''.'' \<and> takeWhile is_digit r \<noteq> [] then dropWhile is_digit r else s)"

definition skip_sign :: "string \<Rightarrow> string" where
  "skip_sign s =
     (case s of
        [] \<Rightarrow> s
      | c # r \<Rightarrow> if c = CHR ''+'' \<or> c = CHR ''-'' then r else s)"

definition skip_exponent :: "string \<Rightarrow> string" where
  "skip_exponent s =
     (case s of
        [] \<Rightarrow> s
      | c # r \<Rightarrow>
          if (c = CHR ''e'' \<or> c = CHR ''E'') \<and> takeWhile is_digit (skip_sign r) \<noteq> []
          then dropWhile is_digit (skip_sign r) else s)"

definition read_number :: "string \<Rightarrow> (json \<times> string) option" where
  "read_number s =
     (case s of
        [] \<Rightarrow> None
      | c # r \<Rightarrow>
          (case read_nat (if c = CHR ''-'' then r else s) of
             None \<Rightarrow> None
           | Some (n, r1) \<Rightarrow>
               (let r2 = skip_exponent (skip_fraction r1)
                in if r2 = r1
                   then Some (JNum (if c = CHR ''-'' then - int n else int n), r1)
                   else Some (JReal (take (length s - length r2) s), r2))))"

definition read_literal :: "string \<Rightarrow> (json \<times> string) option" where
  "read_literal s =
     (if take 4 s = ''null'' then Some (JNull, drop 4 s)
      else if take 4 s = ''true'' then Some (JBool True, drop 4 s)
      else if take 5 s = ''false'' then Some (JBool False, drop 5 s)
      else read_number s)"

fun read_value :: "nat \<Rightarrow> string \<Rightarrow> (json \<times> string) option"
  and read_elements :: "nat \<Rightarrow> string \<Rightarrow> (json list \<times> string) option"
  and read_members :: "nat \<Rightarrow> string \<Rightarrow> ((string \<times> json) list \<times> string) option"
where
  "read_value 0 s = None"
| "read_value (Suc n) s =
     (case skip_ws s of
        [] \<Rightarrow> None
      | c # r \<Rightarrow>
          if c = CHR 0x22 then
            (case read_chars r of None \<Rightarrow> None | Some (t, r') \<Rightarrow> Some (JStr t, r'))
          else if c = CHR ''['' then
            (case skip_ws r of
               [] \<Rightarrow> None
             | d # r' \<Rightarrow>
                 if d = CHR '']'' then Some (JArr [], r')
                 else (case read_elements n r of
                         None \<Rightarrow> None
                       | Some (xs, r'') \<Rightarrow> Some (JArr xs, r'')))
          else if c = CHR ''{'' then
            (case skip_ws r of
               [] \<Rightarrow> None
             | d # r' \<Rightarrow>
                 if d = CHR ''}'' then Some (JObj [], r')
                 else (case read_members n r of
                         None \<Rightarrow> None
                       | Some (kvs, r'') \<Rightarrow> Some (JObj kvs, r'')))
          else read_literal (c # r))"
| "read_elements 0 s = None"
| "read_elements (Suc n) s =
     (case read_value n s of
        None \<Rightarrow> None
      | Some (x, r) \<Rightarrow>
          (case skip_ws r of
             [] \<Rightarrow> None
           | c # r' \<Rightarrow>
               if c = CHR '','' then cons_fst x (read_elements n r')
               else if c = CHR '']'' then Some ([x], r')
               else None))"
| "read_members 0 s = None"
| "read_members (Suc n) s =
     (case skip_ws s of
        [] \<Rightarrow> None
      | q # r \<Rightarrow>
          if q \<noteq> CHR 0x22 then None
          else (case read_chars r of
                  None \<Rightarrow> None
                | Some (k, r1) \<Rightarrow>
                    (case skip_ws r1 of
                       [] \<Rightarrow> None
                     | c # r2 \<Rightarrow>
                         if c \<noteq> CHR '':'' then None
                         else (case read_value n r2 of
                                 None \<Rightarrow> None
                               | Some (x, r3) \<Rightarrow>
                                   (case skip_ws r3 of
                                      [] \<Rightarrow> None
                                    | d # r4 \<Rightarrow>
                                        if d = CHR '','' then cons_fst (k, x) (read_members n r4)
                                        else if d = CHR ''}'' then Some ([(k, x)], r4)
                                        else None)))))"

definition json_loads :: "string \<Rightarrow> json option" where
  "json_loads s =
     (case read_value (Suc (length s)) s of
        None \<Rightarrow> None
      | Some (j, r) \<Rightarrow> if skip_ws r = [] then Some j else None)"

subsection \<open>Example environments\<close>

text \<open>
  In \<open>env_a\<close> pip knows torch and torchaudio (the latter with an empty version line before
  the real one) and neither rvc-python nor edge-tts, for which it prints nothing and exits
  with status 1; \<^verbatim>\<open>edge_tts\<close> can be imported and has a version string, nothing else
  can be imported.
\<close>

definition env_a :: env where
  "env_a =
     \<lparr> sys_executable = ''/usr/bin/python3'',
       subprocess_run = (\<lambda>argv.
         if argv = [''/usr/bin/python3'', ''-m'', ''pip'', ''show'', ''torch'']
         then Inr (CompletedProcess 0
                ''Name: torch\<newline>Version: 2.1.0\<newline>Summary: Tensors\<newline>'')
         else if argv = [''/usr/bin/python3'', ''-m'', ''pip'', ''show'', ''torchaudio'']
         then Inr (CompletedProcess 0
                ''Name: torchaudio\<newline>VERSION: \<newline>Version: 2.1.0\<newline>'')
         else Inr (CompletedProcess 1 [])),
       import_module = (\<lambda>i.
         if i = ''edge_tts'' then Inr (Module (Inr (PStr ''6.1.9'')))
         else Inl ModuleNotFoundError) \<rparr>"

text \<open>
  \<open>env_b\<close> is \<open>env_a\<close> with a module \<^verbatim>\<open>edge_tts\<close> whose \<^verbatim>\<open>__version__\<close> is the tuple
  \<^verbatim>\<open>(6, 1, 9)\<close> and a module \<^verbatim>\<open>rvc\<close> that has no \<^verbatim>\<open>__version__\<close>.
\<close>

definition env_b :: env where
  "env_b =
     env_a \<lparr> import_module := (\<lambda>i.
       if i = ''edge_tts'' then Inr (Module (Inr (PList [PInt 6, PInt 1, PInt 9])))
       else if i = ''rvc'' then Inr (Module (Inl AttributeError))
       else import_module env_a i) \<rparr>"



text \<open>
  \<open>env_e\<close> is \<open>env_a\<close> where the query for torch cannot be launched.
\<close>

definition env_e :: env where
  "env_e =
     env_a \<lparr> subprocess_run := (\<lambda>argv.
       if argv = [''/usr/bin/python3'', ''-m'', ''pip'', ''show'', ''torch'']
       then Inl PermissionError
       else subprocess_run env_a argv) \<rparr>"

text \<open>
  \<open>env_f\<close> is \<open>env_a\<close> with a module \<^verbatim>\<open>edge_tts\<close> whose \<^verbatim>\<open>__version__\<close> is the float
  not-a-number.
\<close>

definition env_f :: env where
  "env_f =
     env_a \<lparr> import_module := (\<lambda>i.
       if i = ''edge_tts'' then Inr (Module (Inr (PFloat NaN)))
       else import_module env_a i) \<rparr>"

subsection \<open>Notions the statements use\<close>

text \<open>The four lookups of the script, as the pairs of arguments of \<^verbatim>\<open>v\<close>.\<close>

definition lookups :: "(string \<times> string) list" where
  "lookups = [(''rvc-python'', ''rvc''), (''edge-tts'', ''edge_tts''),
              (''torch'', ''torch''), (''torchaudio'', ''torchaudio'')]"

text \<open>A text between double quotes.\<close>

definition quoted :: "string \<Rightarrow> string" where
  "quoted s = CHR 0x22 # s @ [CHR 0x22]"

text \<open>
  The text the script prints when the four values are rendered as \<open>ja\<close>, \<open>jb\<close>, \<open>jc\<close>
  and \<open>jd\<close>: one entry per line in the order of the dictionary display, then the line feed
  of \<^verbatim>\<open>print\<close>.
\<close>

definition output_text :: "string \<Rightarrow> string \<Rightarrow> string \<Rightarrow> string \<Rightarrow> string" where
  "output_text ja jb jc jd =
     ''{'' @ [CHR 0x0A] @
     ''  '' @ quoted ''rvc-python'' @ '': '' @ ja @ '','' @ [CHR 0x0A] @
     ''  '' @ quoted ''edge-tts'' @ '': '' @ jb @ '','' @ [CHR 0x0A] @
     ''  '' @ quoted ''torch'' @ '': '' @ jc @ '','' @ [CHR 0x0A] @
     ''  '' @ quoted ''torchaudio'' @ '': '' @ jd @ [CHR 0x0A] @
     ''}'' @ [CHR 0x0A]"

section \<open>Lemmas about the string methods, the JSON reader and the lookup\<close>

lemma lower_char_cases:
  "lower_char c = d \<Longrightarrow> c = d \<or> ((of_char d :: nat) = of_char c + 32 \<and> 65 \<le> (of_char c :: nat))"
  by (auto simp: lower_char_def Let_def split: if_splits)

lemma lower_char_colon: "lower_char c = CHR '':'' \<Longrightarrow> c = CHR '':''"
  using lower_char_cases[of c "CHR '':''"] by auto

lemma lower_char_fix_colon: "lower_char (CHR '':'') = CHR '':''"
  by (simp add: lower_char_def)

text \<open>
  The test of the loop, spelled out: a version line is one whose first eight characters are
  \<^verbatim>\<open>version:\<close> in any mix of upper and lower case.
\<close>

lemma lower_char_letter:
  assumes "97 \<le> (of_char d :: nat)" and "(of_char d :: nat) \<le> 122"
  shows "lower_char c = d \<longleftrightarrow> c = d \<or> c = char_of ((of_char d :: nat) - 32)"
proof
  assume "lower_char c = d"
  then have "c = d \<or> ((of_char d :: nat) = of_char c + 32 \<and> 65 \<le> (of_char c :: nat))"
    by (rule lower_char_cases)
  then show "c = d \<or> c = char_of ((of_char d :: nat) - 32)"
  proof
    assume "c = d"
    then show ?thesis by simp
  next
    assume "(of_char d :: nat) = of_char c + 32 \<and> 65 \<le> (of_char c :: nat)"
    then have "(of_char c :: nat) = of_char d - 32" by simp
    then have "char_of (of_char c :: nat) = (char_of ((of_char d :: nat) - 32) :: char)" by simp
    then show ?thesis by simp
  qed
next
  assume "c = d \<or> c = char_of ((of_char d :: nat) - 32)"
  then show "lower_char c = d"
  proof
    assume "c = d"
    with assms show ?thesis by (simp add: lower_char_def)
  next
    assume c: "c = char_of ((of_char d :: nat) - 32)"
    from assms have "(of_char d :: nat) - 32 < 256" by simp
    with c have n: "(of_char c :: nat) = of_char d - 32" by simp
    with assms have "65 \<le> (of_char c :: nat) \<and> (of_char c :: nat) \<le> 90" by arith
    with n assms have "lower_char c = char_of (of_char d :: nat)"
      by (simp add: lower_char_def)
    then show ?thesis by simp
  qed
qed

lemma lower_char_version:
  "lower_char c = CHR ''v'' \<longleftrightarrow> c \<in> {CHR ''v'', CHR ''V''}"
  "lower_char c = CHR ''e'' \<longleftrightarrow> c \<in> {CHR ''e'', CHR ''E''}"
  "lower_char c = CHR ''r'' \<longleftrightarrow> c \<in> {CHR ''r'', CHR ''R''}"
  "lower_char c = CHR ''s'' \<longleftrightarrow> c \<in> {CHR ''s'', CHR ''S''}"
  "lower_char c = CHR ''i'' \<longleftrightarrow> c \<in> {CHR ''i'', CHR ''I''}"
  "lower_char c = CHR ''o'' \<longleftrightarrow> c \<in> {CHR ''o'', CHR ''O''}"
  "lower_char c = CHR ''n'' \<longleftrightarrow> c \<in> {CHR ''n'', CHR ''N''}"
  "lower_char c = CHR '':'' \<longleftrightarrow> c = CHR '':''"
proof -
  have u: "(char_of ((of_char (CHR ''v'') :: nat) - 32) :: char) = CHR ''V''"
    "(char_of ((of_char (CHR ''e'') :: nat) - 32) :: char) = CHR ''E''"
    "(char_of ((of_char (CHR ''r'') :: nat) - 32) :: char) = CHR ''R''"
    "(char_of ((of_char (CHR ''s'') :: nat) - 32) :: char) = CHR ''S''"
    "(char_of ((of_char (CHR ''i'') :: nat) - 32) :: char) = CHR ''I''"
    "(char_of ((of_char (CHR ''o'') :: nat) - 32) :: char) = CHR ''O''"
    "(char_of ((of_char (CHR ''n'') :: nat) - 32) :: char) = CHR ''N''"
    by code_simp+
  show "lower_char c = CHR ''v'' \<longleftrightarrow> c \<in> {CHR ''v'', CHR ''V''}"
    using lower_char_letter[of "CHR ''v''" c] u(1) by simp
  show "lower_char c = CHR ''e'' \<longleftrightarrow> c \<in> {CHR ''e'', CHR ''E''}"
    using lower_char_letter[of "CHR ''e''" c] u(2) by simp
  show "lower_char c = CHR ''r'' \<longleftrightarrow> c \<in> {CHR ''r'', CHR ''R''}"
    using lower_char_letter[of "CHR ''r''" c] u(3) by simp
  show "lower_char c = CHR ''s'' \<longleftrightarrow> c \<in> {CHR ''s'', CHR ''S''}"
    using lower_char_letter[of "CHR ''s''" c] u(4) by simp
  show "lower_char c = CHR ''i'' \<longleftrightarrow> c \<in> {CHR ''i'', CHR ''I''}"
    using lower_char_letter[of "CHR ''i''" c] u(5) by simp
  show "lower_char c = CHR ''o'' \<longleftrightarrow> c \<in> {CHR ''o'', CHR ''O''}"
    using lower_char_letter[of "CHR ''o''" c] u(6) by simp
  show "lower_char c = CHR ''n'' \<longleftrightarrow> c \<in> {CHR ''n'', CHR ''N''}"
    using lower_char_letter[of "CHR ''n''" c] u(7) by simp
  show "lower_char c = CHR '':'' \<longleftrightarrow> c = CHR '':''"
    using lower_char_colon lower_char_fix_colon by auto
qed

lemma is_version_line_iff:
  "is_version_line l \<longleftrightarrow>
     (\<exists>c1 c2 c3 c4 c5 c6 c7 rest.
        l = c1 # c2 # c3 # c4 # c5 # c6 # c7 # CHR '':'' # rest
        \<and> c1 \<in> {CHR ''v'', CHR ''V''} \<and> c2 \<in> {CHR ''e'', CHR ''E''}
        \<and> c3 \<in> {CHR ''r'', CHR ''R''} \<and> c4 \<in> {CHR ''s'', CHR ''S''}
        \<and> c5 \<in> {CHR ''i'', CHR ''I''} \<and> c6 \<in> {CHR ''o'', CHR ''O''}
        \<and> c7 \<in> {CHR ''n'', CHR ''N''})"
  (is "_ \<longleftrightarrow> ?shape")
proof
  assume "is_version_line l"
  then have "take (length ''version:'') (map lower_char l) = ''version:''"
    by (simp only: is_version_line_def startswith_def lower_def)
  moreover have "length ''version:'' = (8::nat)" by simp
  ultimately have "take 8 (map lower_char l) = ''version:''" by (simp only:)
  then have "map lower_char (take 8 l) = ''version:''" by (simp only: take_map)
  then obtain x1 x2 x3 x4 x5 x6 x7 x8 where
    tk: "take 8 l = [x1, x2, x3, x4, x5, x6, x7, x8]"
    and lc: "lower_char x1 = CHR ''v''" "lower_char x2 = CHR ''e''" "lower_char x3 = CHR ''r''"
      "lower_char x4 = CHR ''s''" "lower_char x5 = CHR ''i''" "lower_char x6 = CHR ''o''"
      "lower_char x7 = CHR ''n''" "lower_char x8 = CHR '':''"
    by (clarsimp simp: map_eq_Cons_conv)
  from lc have m: "x1 \<in> {CHR ''v'', CHR ''V''}" "x2 \<in> {CHR ''e'', CHR ''E''}"
    "x3 \<in> {CHR ''r'', CHR ''R''}" "x4 \<in> {CHR ''s'', CHR ''S''}"
    "x5 \<in> {CHR ''i'', CHR ''I''}" "x6 \<in> {CHR ''o'', CHR ''O''}"
    "x7 \<in> {CHR ''n'', CHR ''N''}" and x8: "x8 = CHR '':''"
    by (simp_all only: lower_char_version)
  have "l = take 8 l @ drop 8 l" by simp
  also have "\<dots> = [x1, x2, x3, x4, x5, x6, x7, x8] @ drop 8 l" by (simp only: tk)
  also have "\<dots> = x1 # x2 # x3 # x4 # x5 # x6 # x7 # CHR '':'' # drop 8 l" by (simp add: x8)
  finally have l: "l = x1 # x2 # x3 # x4 # x5 # x6 # x7 # CHR '':'' # drop 8 l" .
  show ?shape
    by (rule exI[of _ x1], rule exI[of _ x2], rule exI[of _ x3], rule exI[of _ x4],
        rule exI[of _ x5], rule exI[of _ x6], rule exI[of _ x7], rule exI[of _ "drop 8 l"])
       (intro conjI l m)
next
  assume ?shape
  then obtain c1 c2 c3 c4 c5 c6 c7 rest where
    l: "l = c1 # c2 # c3 # c4 # c5 # c6 # c7 # CHR '':'' # rest"
    and c: "c1 \<in> {CHR ''v'', CHR ''V''}" "c2 \<in> {CHR ''e'', CHR ''E''}"
      "c3 \<in> {CHR ''r'', CHR ''R''}" "c4 \<in> {CHR ''s'', CHR ''S''}"
      "c5 \<in> {CHR ''i'', CHR ''I''}" "c6 \<in> {CHR ''o'', CHR ''O''}"
      "c7 \<in> {CHR ''n'', CHR ''N''}"
    by blast
  from c have lc: "lower_char c1 = CHR ''v''" "lower_char c2 = CHR ''e''"
    "lower_char c3 = CHR ''r''" "lower_char c4 = CHR ''s''" "lower_char c5 = CHR ''i''"
    "lower_char c6 = CHR ''o''" "lower_char c7 = CHR ''n''"
    by (simp_all only: lower_char_version)
  have "is_version_line (c1 # c2 # c3 # c4 # c5 # c6 # c7 # CHR '':'' # rest)"
    by (simp add: is_version_line_def startswith_def lower_def lc lower_char_fix_colon)
  then show "is_version_line l" by (simp only: l)
qed

lemma version_line_shape:
  assumes "is_version_line l"
  obtains a b where "l = a @ CHR '':'' # b" and "CHR '':'' \<notin> set a" and "length a = 7"
proof -
  from assms have "take (length ''version:'') (map lower_char l) = ''version:''"
    by (simp only: is_version_line_def startswith_def lower_def)
  moreover have "length ''version:'' = (8::nat)" by simp
  ultimately have "take 8 (map lower_char l) = ''version:''" by (simp only:)
  then have t: "map lower_char (take 8 l) = ''version:''" by (simp only: take_map)
  then obtain x1 x2 x3 x4 x5 x6 x7 x8 where
    tk: "take 8 l = [x1, x2, x3, x4, x5, x6, x7, x8]"
    and lc: "lower_char x1 = CHR ''v''" "lower_char x2 = CHR ''e''" "lower_char x3 = CHR ''r''"
      "lower_char x4 = CHR ''s''" "lower_char x5 = CHR ''i''" "lower_char x6 = CHR ''o''"
      "lower_char x7 = CHR ''n''" "lower_char x8 = CHR '':''"
    by (clarsimp simp: map_eq_Cons_conv)
  from lc(8) have x8: "x8 = CHR '':''" by (rule lower_char_colon)
  have ne: "CHR '':'' \<notin> set [x1, x2, x3, x4, x5, x6, x7]"
    using lc(1-7) lower_char_fix_colon by auto
  have "l = take 8 l @ drop 8 l" by simp
  also have "\<dots> = [x1, x2, x3, x4, x5, x6, x7, x8] @ drop 8 l" by (simp only: tk)
  also have "\<dots> = [x1, x2, x3, x4, x5, x6, x7] @ CHR '':'' # drop 8 l" by (simp add: x8)
  finally have "l = [x1, x2, x3, x4, x5, x6, x7] @ CHR '':'' # drop 8 l" .
  moreover note ne
  moreover have "length [x1, x2, x3, x4, x5, x6, x7] = 7" by simp
  ultimately show thesis by (rule that)
qed

lemma split1_first:
  assumes "sep \<notin> set a"
  shows "split1 sep (a @ sep # b) = [a, b]"
proof -
  from assms have ne: "\<And>x. x \<in> set a \<Longrightarrow> x \<noteq> sep" by auto
  then have "dropWhile (\<lambda>c. c \<noteq> sep) (a @ sep # b) = sep # b"
    and "takeWhile (\<lambda>c. c \<noteq> sep) (a @ sep # b) = a"
    by simp_all
  then show ?thesis by (simp add: split1_def)
qed

lemma strip_shape:
  "\<exists>w1 w2. s = w1 @ strip s @ w2 \<and> (\<forall>c \<in> set w1. is_space c) \<and> (\<forall>c \<in> set w2. is_space c)
     \<and> (strip s = [] \<or> (\<not> is_space (hd (strip s)) \<and> \<not> is_space (last (strip s))))"
proof -
  let ?m = "dropWhile is_space s"
  let ?w1 = "takeWhile is_space s"
  let ?w2 = "rev (takeWhile is_space (rev ?m))"
  have 1: "s = ?w1 @ ?m" by simp
  have "rev (takeWhile is_space (rev ?m) @ dropWhile is_space (rev ?m)) = ?m"
    by (simp only: takeWhile_dropWhile_id rev_rev_ident)
  then have 2: "?m = strip s @ ?w2" by (simp only: rev_append strip_def)
  have 3: "\<forall>c \<in> set ?w1. is_space c" by (auto dest: set_takeWhileD)
  have 4: "\<forall>c \<in> set ?w2. is_space c" by (auto dest: set_takeWhileD)
  have 5: "strip s = [] \<or> (\<not> is_space (hd (strip s)) \<and> \<not> is_space (last (strip s)))"
  proof (cases "strip s = []")
    case True then show ?thesis by simp
  next
    case False
    then have ne: "dropWhile is_space (rev ?m) \<noteq> []" by (simp add: strip_def)
    then have l: "\<not> is_space (hd (dropWhile is_space (rev ?m)))" by (rule hd_dropWhile)
    have "last (strip s) = hd (dropWhile is_space (rev ?m))"
      using ne by (simp add: strip_def last_rev)
    with l have a: "\<not> is_space (last (strip s))" by simp
    have mne: "?m \<noteq> []"
    proof
      assume e: "?m = []"
      have "dropWhile is_space (rev ?m) = dropWhile is_space (rev [])" by (simp only: e)
      with ne show False by simp
    qed
    then have hm: "\<not> is_space (hd ?m)" by (rule hd_dropWhile)
    have "hd ?m = hd (strip s @ ?w2)" by (rule arg_cong[OF 2])
    also have "\<dots> = hd (strip s)" using False by (rule hd_append2)
    finally have "hd ?m = hd (strip s)" .
    with hm have "\<not> is_space (hd (strip s))" by simp
    with a show ?thesis by simp
  qed
  have "?w1 @ ?m = ?w1 @ (strip s @ ?w2)" by (rule arg_cong[OF 2])
  with 1 have "s = ?w1 @ strip s @ ?w2" by (rule trans)
  with 3 4 5 show ?thesis by blast
qed

lemma scan_None_iff: "scan ls = None \<longleftrightarrow> (\<forall>l \<in> set ls. \<not> is_version_line l)"
  by (induction ls) auto

lemma hexval_hexdigit: "k < 16 \<Longrightarrow> hexval (hexdigit k) = Some k"
proof -
  assume "k < 16"
  then have "k = 0 \<or> k = 1 \<or> k = 2 \<or> k = 3 \<or> k = 4 \<or> k = 5 \<or> k = 6 \<or> k = 7 \<or> k = 8
      \<or> k = 9 \<or> k = 10 \<or> k = 11 \<or> k = 12 \<or> k = 13 \<or> k = 14 \<or> k = 15"
    by arith
  then show ?thesis
    by (elim disjE) (simp_all add: hexdigit_def hexval_def)
qed

lemma hexval_zero: "hexval (CHR ''0'') = Some 0"
  by (simp add: hexval_def)

lemma hex4_char: "hex4 (CHR ''0'') (CHR ''0'') (hexdigit (of_char c div 16)) (hexdigit (of_char c mod 16))
   = Some (of_char c)"
proof -
  have "(of_char c :: nat) < 256" by simp
  then have "(of_char c :: nat) div 16 < 16" by arith
  then have 1: "hexval (hexdigit (of_char c div 16)) = Some (of_char c div 16)"
    by (rule hexval_hexdigit)
  have 2: "hexval (hexdigit (of_char c mod 16)) = Some (of_char c mod 16)"
    by (rule hexval_hexdigit) simp
  show ?thesis by (simp add: hex4_def hexval_zero 1 2)
qed

lemma read_chars_escape_char: "read_chars (escape_char c @ t) = cons_fst c (read_chars t)"
proof -
  consider (sp) "c \<in> set [CHR 0x22, CHR 0x5C, CHR 0x0A, CHR 0x0D, CHR 0x09, CHR 0x08, CHR 0x0C]"
    | (pr) "c \<notin> set [CHR 0x22, CHR 0x5C, CHR 0x0A, CHR 0x0D, CHR 0x09, CHR 0x08, CHR 0x0C]"
        "32 \<le> (of_char c :: nat) \<and> (of_char c :: nat) \<le> 126"
    | (u) "c \<notin> set [CHR 0x22, CHR 0x5C, CHR 0x0A, CHR 0x0D, CHR 0x09, CHR 0x08, CHR 0x0C]"
        "\<not> (32 \<le> (of_char c :: nat) \<and> (of_char c :: nat) \<le> 126)"
    by blast
  then show ?thesis
  proof cases
    case sp
    then show ?thesis by (auto simp: escape_char_def unescape_def)
  next
    case pr
    then show ?thesis by (simp add: escape_char_def)
  next
    case u
    then have "escape_char c = [CHR 0x5C, CHR ''u'', CHR ''0'', CHR ''0'',
            hexdigit (of_char c div 16), hexdigit (of_char c mod 16)]"
      by (simp add: escape_char_def)
    then show ?thesis by (simp add: hex4_char)
  qed
qed

lemma read_chars_escape:
  "read_chars (concat (map escape_char s) @ CHR 0x22 # rest) = Some (s, rest)"
  by (induction s) (simp_all add: read_chars_escape_char cons_fst_def)

lemma first_split_unique:
  assumes "a @ c # b = a' @ c # b'" and "c \<notin> set a" and "c \<notin> set a'"
  shows "a = a' \<and> b = b'"
proof -
  from assms(2) have "\<And>x. x \<in> set a \<Longrightarrow> x \<noteq> c" by auto
  then have "takeWhile (\<lambda>x. x \<noteq> c) (a @ c # b) = a" by simp
  moreover from assms(3) have "\<And>x. x \<in> set a' \<Longrightarrow> x \<noteq> c" by auto
  then have "takeWhile (\<lambda>x. x \<noteq> c) (a' @ c # b') = a'" by simp
  ultimately have "a = a'" using assms(1) by simp
  with assms(1) show ?thesis by simp
qed

lemma version_line_rest:
  assumes "is_version_line l" and "l = a @ CHR '':'' # b" and "CHR '':'' \<notin> set a"
  shows "b = drop 8 l" and "length a = 7"
proof -
  from assms(1) obtain a' b' where s: "l = a' @ CHR '':'' # b'" "CHR '':'' \<notin> set a'" "length a' = 7"
    by (rule version_line_shape)
  from s(1) assms(2) have "a @ CHR '':'' # b = a' @ CHR '':'' # b'" by simp
  then have e: "a = a' \<and> b = b'" using assms(3) s(2) by (rule first_split_unique)
  with s(3) show "length a = 7" by simp
  from s(1) s(3) have "drop 8 l = b'" by simp
  with e show "b = drop 8 l" by simp
qed

lemma scan_match:
  assumes "is_version_line l"
  shows "scan (l # ls) = Some (Inr (strip (drop 8 l)))"
proof -
  from assms obtain a b where s: "l = a @ CHR '':'' # b" "CHR '':'' \<notin> set a" "length a = 7"
    by (rule version_line_shape)
  from s(2) have "split1 (CHR '':'') (a @ CHR '':'' # b) = [a, b]" by (rule split1_first)
  with s(1) have sp: "split1 (CHR '':'') l = [a, b]" by simp
  from s(1) s(3) have "drop 8 l = b" by simp
  with assms sp show ?thesis by (simp add: index_def)
qed

lemma scan_first_match:
  assumes "\<forall>x \<in> set pre. \<not> is_version_line x" and "is_version_line l"
  shows "scan (pre @ l # post) = Some (Inr (strip (drop 8 l)))"
  using assms(1)
proof (induction pre)
  case Nil
  from assms(2) show ?case by (simp only: append_Nil scan_match)
next
  case (Cons x pre)
  then have n: "\<not> is_version_line x" and r: "\<forall>x \<in> set pre. \<not> is_version_line x"
    by simp_all
  from n have "scan ((x # pre) @ l # post) = scan (pre @ l # post)" by simp
  also from r have "\<dots> = Some (Inr (strip (drop 8 l)))" by (rule Cons.IH)
  finally show ?case .
qed

lemma scan_some_string:
  assumes "\<exists>l \<in> set ls. is_version_line l"
  shows "\<exists>s. scan ls = Some (Inr s)"
  using assms
proof (induction ls)
  case Nil
  then show ?case by simp
next
  case (Cons x ls)
  show ?case
  proof (cases "is_version_line x")
    case True
    then show ?thesis by (simp only: scan_match) blast
  next
    case False
    with Cons.prems have "\<exists>l \<in> set ls. is_version_line l" by simp
    then have "\<exists>s. scan ls = Some (Inr s)" by (rule Cons.IH)
    with False show ?thesis by simp
  qed
qed

lemma v_no_version_line:
  assumes "subprocess_run env (pip_show env p) = Inr r"
    and "\<forall>l \<in> set (splitlines (stdout r)). \<not> is_version_line l"
  shows "v env p i = ([Spawn (pip_show env p), Import i], Inr (fallback env i))"
proof -
  from assms(2) have "scan (splitlines (stdout r)) = None" by (simp only: scan_None_iff)
  with assms(1) show ?thesis by (simp add: v_def)
qed

lemma v_version_line:
  assumes "subprocess_run env (pip_show env p) = Inr r"
    and "splitlines (stdout r) = pre @ l # post"
    and "\<forall>x \<in> set pre. \<not> is_version_line x" and "is_version_line l"
  shows "v env p i = ([Spawn (pip_show env p)], Inr (PStr (strip (drop 8 l))))"
proof -
  from assms(3,4) have "scan (pre @ l # post) = Some (Inr (strip (drop 8 l)))"
    by (rule scan_first_match)
  with assms(1,2) show ?thesis by (simp add: v_def)
qed

lemma v_raises:
  "subprocess_run env (pip_show env p) = Inl e \<Longrightarrow> v env p i = ([Spawn (pip_show env p)], Inl e)"
  by (simp add: v_def)

lemma v_returns:
  assumes "subprocess_run env (pip_show env p) = Inr r"
  shows "\<exists>x. snd (v env p i) = Inr x"
proof (cases "\<exists>l \<in> set (splitlines (stdout r)). is_version_line l")
  case True
  then obtain s where "scan (splitlines (stdout r)) = Some (Inr s)"
    using scan_some_string by blast
  with assms show ?thesis by (simp add: v_def)
next
  case False
  then have "\<forall>l \<in> set (splitlines (stdout r)). \<not> is_version_line l" by simp
  with assms have "v env p i = ([Spawn (pip_show env p), Import i], Inr (fallback env i))"
    by (rule v_no_version_line)
  then show ?thesis by simp
qed

lemma fallback_raised:
  "import_module env i = Inl e \<Longrightarrow> fallback env i = PStr ''not installed''"
  "import_module env i = Inr m \<Longrightarrow> version_attr m = Inl e \<Longrightarrow> fallback env i = PStr ''not installed''"
  by (simp_all add: fallback_def)

lemma fallback_attr:
  "import_module env i = Inr m \<Longrightarrow> version_attr m = Inr x \<Longrightarrow> fallback env i = x"
  by (simp add: fallback_def)

lemma printed_append: "printed (s @ t) = printed s @ printed t"
  by (induction s rule: printed.induct) simp_all

lemma fst_v_cases:
  "fst (v env p i) = [Spawn (pip_show env p)] \<or> fst (v env p i) = [Spawn (pip_show env p), Import i]"
  by (simp add: v_def split: sum.splits option.splits)

lemma printed_v: "printed (fst (v env p i)) = []"
  using fst_v_cases[of env p i] by auto

lemma exits_ok_io_bind:
  "exits_ok (io_bind m f) \<longleftrightarrow> (\<exists>x. snd m = Inr x \<and> exits_ok (f x))"
  by (cases m) (auto simp: exits_ok_def io_bind_def split: sum.splits prod.splits)

lemma printed_io_bind_fail:
  assumes "\<not> exits_ok (io_bind m f)" and "printed (fst m) = []"
    and "\<And>x. \<not> exits_ok (f x) \<Longrightarrow> printed (fst (f x)) = []"
  shows "printed (fst (io_bind m f)) = []"
proof (cases m)
  case (Pair t r)
  show ?thesis
  proof (cases r)
    case (Inl e)
    with Pair assms(2) show ?thesis by (simp add: io_bind_def)
  next
    case (Inr x)
    with Pair have b: "io_bind m f = (t @ fst (f x), snd (f x))"
      by (simp add: io_bind_def split: prod.splits)
    with assms(1) have "\<not> exits_ok (f x)" by (simp add: exits_ok_def)
    then have "printed (fst (f x)) = []" by (rule assms(3))
    with b Pair assms(2) show ?thesis by (simp add: printed_append)
  qed
qed

lemma main_fail_silent: "\<not> exits_ok (main env) \<Longrightarrow> printed (fst (main env)) = []"
  unfolding main_def
  apply (erule printed_io_bind_fail, rule printed_v)+
  apply (erule printed_io_bind_fail)
   apply (simp add: json_dumps_def)
  apply (simp add: exits_ok_def print_def)
  done

lemma main_ok_iff:
  "exits_ok (main env) \<longleftrightarrow>
    (\<exists>a b c d s. snd (v env ''rvc-python'' ''rvc'') = Inr a \<and> snd (v env ''edge-tts'' ''edge_tts'') = Inr b
       \<and> snd (v env ''torch'' ''torch'') = Inr c \<and> snd (v env ''torchaudio'' ''torchaudio'') = Inr d
       \<and> encode 0 (PDict [(''rvc-python'', a), (''edge-tts'', b), (''torch'', c), (''torchaudio'', d)]) = Inr s)"
  by (simp add: main_def exits_ok_io_bind json_dumps_def) (simp add: exits_ok_def print_def)

lemma main_ok:
  assumes "v env ''rvc-python'' ''rvc'' = (t1, Inr a)" "v env ''edge-tts'' ''edge_tts'' = (t2, Inr b)"
    "v env ''torch'' ''torch'' = (t3, Inr c)" "v env ''torchaudio'' ''torchaudio'' = (t4, Inr d)"
    "encode 0 (PDict [(''rvc-python'', a), (''edge-tts'', b), (''torch'', c), (''torchaudio'', d)]) = Inr s"
  shows "main env = (t1 @ t2 @ t3 @ t4 @ [Print (s @ [CHR 0x0A])], Inr ())"
  by (simp add: main_def assms io_bind_def json_dumps_def print_def del: encode.simps)

lemma skip_ws_Cons: "skip_ws (c # s) = (if is_ws c then skip_ws s else c # s)"
  by (simp add: skip_ws_def)

lemma skip_ws_newline_indent: "skip_ws (newline_indent lvl @ s) = skip_ws s"
  by (simp add: skip_ws_def newline_indent_def is_ws_def dropWhile_append)

lemma key_texts:
  "encode_basestring_ascii ''rvc-python'' = quoted ''rvc-python''"
  "encode_basestring_ascii ''edge-tts'' = quoted ''edge-tts''"
  "encode_basestring_ascii ''torch'' = quoted ''torch''"
  "encode_basestring_ascii ''torchaudio'' = quoted ''torchaudio''"
  by code_simp+

lemma newline_indent_values:
  "newline_indent 0 = [CHR 0x0A]"
  "newline_indent (Suc 0) = [CHR 0x0A, CHR '' '', CHR '' '']"
  by (simp_all add: newline_indent_def numeral_2_eq_2)

lemma encode_dict_text:
  assumes "encode 0 (PDict [(''rvc-python'', a), (''edge-tts'', b), (''torch'', c), (''torchaudio'', d)])
             = Inr s"
  shows "\<exists>ja jb jc jd. encode 1 a = Inr ja \<and> encode 1 b = Inr jb \<and> encode 1 c = Inr jc
           \<and> encode 1 d = Inr jd \<and> s @ [CHR 0x0A] = output_text ja jb jc jd"
  using assms
  by (auto simp: key_texts output_text_def newline_indent_values split: sum.splits)

lemma v_shape:
  assumes "snd (v env p i) = Inr a"
  shows "\<exists>t. v env p i = (Spawn (pip_show env p) # t, Inr a) \<and> t \<in> set [[], [Import i]]"
  using assms by (auto simp: v_def split: sum.splits option.splits)


lemma skip_ws_quote: "skip_ws (encode_basestring_ascii a @ s) = encode_basestring_ascii a @ s"
  by (simp add: skip_ws_def encode_basestring_ascii_def is_ws_def)

lemma read_chars_string:
  "encode_basestring_ascii a @ rest = CHR 0x22 # t \<Longrightarrow> read_chars t = Some (a, rest)"
  by (simp add: encode_basestring_ascii_def read_chars_escape[symmetric])

lemma read_value_string:
  "read_value (Suc n) (CHR '' '' # encode_basestring_ascii a @ rest) = Some (JStr a, rest)"
  by (simp add: skip_ws_Cons is_ws_def encode_basestring_ascii_def read_chars_escape)

lemma read_members_more:
  "read_members (Suc (Suc n))
     (newline_indent (Suc 0) @ encode_basestring_ascii k @ CHR '':'' # CHR '' '' #
        encode_basestring_ascii a @ CHR '','' # rest)
   = cons_fst (k, JStr a) (read_members (Suc n) rest)"
proof -
  have 1: "skip_ws (newline_indent (Suc 0) @ encode_basestring_ascii k @ CHR '':'' # CHR '' '' #
        encode_basestring_ascii a @ CHR '','' # rest)
      = CHR 0x22 # concat (map escape_char k) @ CHR 0x22 # CHR '':'' # CHR '' '' #
        encode_basestring_ascii a @ CHR '','' # rest"
    by (simp add: skip_ws_newline_indent) (simp add: skip_ws_def encode_basestring_ascii_def is_ws_def)
  have 2: "read_value (Suc n) (CHR '' '' # encode_basestring_ascii a @ CHR '','' # rest)
      = Some (JStr a, CHR '','' # rest)"
    by (rule read_value_string)
  show ?thesis
    by (simp only: read_members.simps 1)
       (simp add: read_chars_escape skip_ws_Cons is_ws_def 2 del: read_value.simps read_elements.simps read_members.simps)
qed

lemma read_members_last:
  "read_members (Suc (Suc n))
     (newline_indent (Suc 0) @ encode_basestring_ascii k @ CHR '':'' # CHR '' '' #
        encode_basestring_ascii a @ newline_indent 0 @ CHR ''}'' # rest)
   = Some ([(k, JStr a)], rest)"
proof -
  have 1: "skip_ws (newline_indent (Suc 0) @ encode_basestring_ascii k @ CHR '':'' # CHR '' '' #
        encode_basestring_ascii a @ newline_indent 0 @ CHR ''}'' # rest)
      = CHR 0x22 # concat (map escape_char k) @ CHR 0x22 # CHR '':'' # CHR '' '' #
        encode_basestring_ascii a @ newline_indent 0 @ CHR ''}'' # rest"
    by (simp add: skip_ws_newline_indent) (simp add: skip_ws_def encode_basestring_ascii_def is_ws_def)
  have 2: "read_value (Suc n) (CHR '' '' # encode_basestring_ascii a @ newline_indent 0 @ CHR ''}'' # rest)
      = Some (JStr a, newline_indent 0 @ CHR ''}'' # rest)"
    by (rule read_value_string)
  show ?thesis
    by (simp only: read_members.simps 1)
       (simp add: read_chars_escape skip_ws_Cons is_ws_def 2 skip_ws_newline_indent
          del: read_value.simps read_elements.simps read_members.simps)
qed

lemma encode_dict_strings:
  "encode 0 (PDict [(k1, PStr a), (k2, PStr b), (k3, PStr c), (k4, PStr d)]) =
     Inr (CHR ''{'' # newline_indent (Suc 0) @
          encode_basestring_ascii k1 @ CHR '':'' # CHR '' '' # encode_basestring_ascii a @ CHR '','' #
          newline_indent (Suc 0) @
          encode_basestring_ascii k2 @ CHR '':'' # CHR '' '' # encode_basestring_ascii b @ CHR '','' #
          newline_indent (Suc 0) @
          encode_basestring_ascii k3 @ CHR '':'' # CHR '' '' # encode_basestring_ascii c @ CHR '','' #
          newline_indent (Suc 0) @
          encode_basestring_ascii k4 @ CHR '':'' # CHR '' '' # encode_basestring_ascii d @
          newline_indent 0 @ ''}'')"
  by simp

lemma read_dict_strings:
  "read_value (Suc (Suc (Suc (Suc (Suc (Suc n))))))
     (CHR ''{'' # newline_indent (Suc 0) @
          encode_basestring_ascii k1 @ CHR '':'' # CHR '' '' # encode_basestring_ascii a @ CHR '','' #
          newline_indent (Suc 0) @
          encode_basestring_ascii k2 @ CHR '':'' # CHR '' '' # encode_basestring_ascii b @ CHR '','' #
          newline_indent (Suc 0) @
          encode_basestring_ascii k3 @ CHR '':'' # CHR '' '' # encode_basestring_ascii c @ CHR '','' #
          newline_indent (Suc 0) @
          encode_basestring_ascii k4 @ CHR '':'' # CHR '' '' # encode_basestring_ascii d @
          newline_indent 0 @ CHR ''}'' # rest)
   = Some (JObj [(k1, JStr a), (k2, JStr b), (k3, JStr c), (k4, JStr d)], rest)"
proof -
  have 1: "\<And>s. skip_ws (CHR ''{'' # s) = CHR ''{'' # s" by (simp add: skip_ws_Cons is_ws_def)
  have 2: "\<And>s. skip_ws (newline_indent (Suc 0) @ encode_basestring_ascii k1 @ s)
      = CHR 0x22 # concat (map escape_char k1) @ CHR 0x22 # s"
    by (simp add: skip_ws_newline_indent) (simp add: skip_ws_def encode_basestring_ascii_def is_ws_def)
  show ?thesis
    apply (subst read_value.simps(2))
    apply (simp only: 1 2 list.case)
    apply (simp add: read_members_more read_members_last cons_fst_def
          del: read_value.simps read_elements.simps read_members.simps)
    done
qed

lemma json_loads_dict_strings:
  assumes "encode 0 (PDict [(k1, PStr a), (k2, PStr b), (k3, PStr c), (k4, PStr d)]) = Inr s"
  shows "json_loads (s @ [CHR 0x0A]) = Some (JObj [(k1, JStr a), (k2, JStr b), (k3, JStr c), (k4, JStr d)])"
proof -
  let ?body = "newline_indent (Suc 0) @
          encode_basestring_ascii k1 @ CHR '':'' # CHR '' '' # encode_basestring_ascii a @ CHR '','' #
          newline_indent (Suc 0) @
          encode_basestring_ascii k2 @ CHR '':'' # CHR '' '' # encode_basestring_ascii b @ CHR '','' #
          newline_indent (Suc 0) @
          encode_basestring_ascii k3 @ CHR '':'' # CHR '' '' # encode_basestring_ascii c @ CHR '','' #
          newline_indent (Suc 0) @
          encode_basestring_ascii k4 @ CHR '':'' # CHR '' '' # encode_basestring_ascii d @
          newline_indent 0 @ CHR ''}'' # [CHR 0x0A]"
  from assms have s: "s @ [CHR 0x0A] = CHR ''{'' # ?body"
    by (simp only: encode_dict_strings) simp
  have "5 \<le> length ?body" by (simp add: newline_indent_def)
  then obtain n where "length ?body = 5 + n" using le_Suc_ex by blast
  then have f: "Suc (length (CHR ''{'' # ?body)) = Suc (Suc (Suc (Suc (Suc (Suc (Suc n))))))"
    by simp
  have "read_value (Suc (length (CHR ''{'' # ?body))) (CHR ''{'' # ?body)
      = Some (JObj [(k1, JStr a), (k2, JStr b), (k3, JStr c), (k4, JStr d)], [CHR 0x0A])"
    by (simp only: f read_dict_strings)
  then show ?thesis
    by (simp only: json_loads_def s) (simp add: skip_ws_def is_ws_def)
qed

lemma v_returns_pair:
  assumes "subprocess_run env (pip_show env p) = Inr r"
  obtains t x where "v env p i = (t, Inr x)"
proof -
  from assms obtain x where "snd (v env p i) = Inr x" using v_returns by blast
  then have "v env p i = (fst (v env p i), Inr x)" by (simp add: prod_eq_iff)
  then show thesis by (rule that)
qed

section \<open>The runs in the example environments\<close>

lemma run_a_torch:
  "subprocess_run env_a (pip_show env_a ''torch'') =
     Inr (CompletedProcess 0 ''Name: torch\<newline>Version: 2.1.0\<newline>Summary: Tensors\<newline>'')"
  by (simp add: env_a_def pip_show_def)

lemma lines_a_torch:
  "splitlines (stdout (CompletedProcess 0 ''Name: torch\<newline>Version: 2.1.0\<newline>Summary: Tensors\<newline>''))
     = [''Name: torch''] @ ''Version: 2.1.0'' # [''Summary: Tensors'']"
  by code_simp

lemma run_a_torchaudio:
  "subprocess_run env_a (pip_show env_a ''torchaudio'') =
     Inr (CompletedProcess 0 ''Name: torchaudio\<newline>VERSION: \<newline>Version: 2.1.0\<newline>'')"
  by (simp add: env_a_def pip_show_def)

lemma lines_a_torchaudio:
  "splitlines (stdout (CompletedProcess 0 ''Name: torchaudio\<newline>VERSION: \<newline>Version: 2.1.0\<newline>''))
     = [''Name: torchaudio''] @ ''VERSION: '' # [''Version: 2.1.0'']"
  by code_simp

lemma run_a_absent:
  "subprocess_run env_a (pip_show env_a ''rvc-python'') = Inr (CompletedProcess 1 [])"
  "subprocess_run env_a (pip_show env_a ''edge-tts'') = Inr (CompletedProcess 1 [])"
  by (simp_all add: env_a_def pip_show_def)

lemma run_b_absent:
  "subprocess_run env_b (pip_show env_b ''rvc-python'') = Inr (CompletedProcess 1 [])"
  "subprocess_run env_b (pip_show env_b ''edge-tts'') = Inr (CompletedProcess 1 [])"
  by (simp_all add: env_b_def env_a_def pip_show_def)

lemma splitlines_Nil: "splitlines [] = []"
  by (simp add: splitlines.simps)

lemma version_line_examples:
  "is_version_line ''Version: 2.1.0''" "is_version_line ''VERSION: ''"
  "\<not> is_version_line ''Name: torch''" "\<not> is_version_line ''Name: torchaudio''"
  by code_simp+

lemma import_examples:
  "import_module env_a ''rvc'' = Inl ModuleNotFoundError"
  "import_module env_a ''edge_tts'' = Inr (Module (Inr (PStr ''6.1.9'')))"
  "import_module env_b ''rvc'' = Inr (Module (Inl AttributeError))"
  "import_module env_b ''edge_tts'' = Inr (Module (Inr (PList [PInt 6, PInt 1, PInt 9])))"
  by (simp_all add: env_a_def env_b_def)

lemma main_a:
  "main env_a =
     ([Spawn [''/usr/bin/python3'', ''-m'', ''pip'', ''show'', ''rvc-python''], Import ''rvc'',
       Spawn [''/usr/bin/python3'', ''-m'', ''pip'', ''show'', ''edge-tts''], Import ''edge_tts'',
       Spawn [''/usr/bin/python3'', ''-m'', ''pip'', ''show'', ''torch''],
       Spawn [''/usr/bin/python3'', ''-m'', ''pip'', ''show'', ''torchaudio''],
       Print (output_text (quoted ''not installed'') (quoted ''6.1.9'') (quoted ''2.1.0'')
                (quoted []))],
      Inr ())"
  by code_simp

lemma exits_ok_a: "exits_ok (main env_a)"
  by (simp add: main_a exits_ok_def)

section \<open>The lookup\<close>

text \<open>
  Claim C1. When the output of the pip query has a line that starts, case-insensitively,
  with \<^verbatim>\<open>version:\<close>, the lookup returns the text of the first such line after its first
  colon, without the white space at both ends: the line is \<open>a\<close>, the colon, white space
  \<open>w1\<close>, the value \<open>t\<close> and white space \<open>w2\<close>, with no colon in \<open>a\<close> and no white space
  at either end of \<open>t\<close>. The line \<^verbatim>\<open>Version: 2.1.0\<close> gives \<^verbatim>\<open>2.1.0\<close>.
\<close>

theorem version_line_resolved:
  assumes "subprocess_run env (pip_show env p) = Inr r"
    and "splitlines (stdout r) = pre @ l # post"
    and "\<forall>x \<in> set pre. \<not> is_version_line x"
    and "is_version_line l"
  shows "\<exists>a w1 t w2.
           l = a @ CHR '':'' # w1 @ t @ w2 \<and> CHR '':'' \<notin> set a
           \<and> (\<forall>c \<in> set w1. is_space c) \<and> (\<forall>c \<in> set w2. is_space c)
           \<and> (t = [] \<or> (\<not> is_space (hd t) \<and> \<not> is_space (last t)))
           \<and> snd (v env p i) = Inr (PStr t)"
proof -
  from assms(4) obtain a b where s: "l = a @ CHR '':'' # b" "CHR '':'' \<notin> set a" "length a = 7"
    by (rule version_line_shape)
  from s(1) s(3) have b: "drop 8 l = b" by simp
  from assms have "v env p i = ([Spawn (pip_show env p)], Inr (PStr (strip (drop 8 l))))"
    by (rule v_version_line)
  with b have r: "snd (v env p i) = Inr (PStr (strip b))" by simp
  obtain w1 w2 where w: "b = w1 @ strip b @ w2" "\<forall>c \<in> set w1. is_space c"
    "\<forall>c \<in> set w2. is_space c"
    "strip b = [] \<or> (\<not> is_space (hd (strip b)) \<and> \<not> is_space (last (strip b)))"
    using strip_shape[of b] by blast
  have "l = a @ CHR '':'' # w1 @ strip b @ w2"
    using s(1) arg_cong[OF w(1), of "\<lambda>x. a @ CHR '':'' # x"] by (rule trans)
  with s(2) w(2,3,4) r show ?thesis by blast
qed

theorem version_line_resolved_witness:
  "subprocess_run env_a (pip_show env_a ''torch'') =
     Inr (CompletedProcess 0 ''Name: torch\<newline>Version: 2.1.0\<newline>Summary: Tensors\<newline>'')
   \<and> splitlines ''Name: torch\<newline>Version: 2.1.0\<newline>Summary: Tensors\<newline>''
       = [''Name: torch'', ''Version: 2.1.0'', ''Summary: Tensors'']
   \<and> \<not> is_version_line ''Name: torch'' \<and> is_version_line ''Version: 2.1.0''
   \<and> (\<exists>a w1 t w2.
           ''Version: 2.1.0'' = a @ CHR '':'' # w1 @ t @ w2 \<and> CHR '':'' \<notin> set a
           \<and> (\<forall>c \<in> set w1. is_space c) \<and> (\<forall>c \<in> set w2. is_space c)
           \<and> (t = [] \<or> (\<not> is_space (hd t) \<and> \<not> is_space (last t)))
           \<and> snd (v env_a ''torch'' ''torch'') = Inr (PStr t))
   \<and> snd (v env_a ''torch'' ''torch'') = Inr (PStr ''2.1.0'')"
proof -
  have pre: "\<forall>x \<in> set [''Name: torch'']. \<not> is_version_line x"
    using version_line_examples(3) by simp
  have val: "snd (v env_a ''torch'' ''torch'') = Inr (PStr ''2.1.0'')" by code_simp
  note version_line_resolved[OF run_a_torch lines_a_torch pre version_line_examples(1),
      of "''torch''"]
  with run_a_torch lines_a_torch version_line_examples(1,3) val show ?thesis by simp
qed

text \<open>
  Claim C2. When the output of the pip query has no version line and the import, or the
  reading of \<^verbatim>\<open>__version__\<close>, raises an exception, the lookup returns exactly the string
  \<^verbatim>\<open>not installed\<close>.
\<close>

theorem not_installed_sentinel:
  assumes "subprocess_run env (pip_show env p) = Inr r"
    and "\<forall>l \<in> set (splitlines (stdout r)). \<not> is_version_line l"
    and "(\<exists>e. import_module env i = Inl e)
         \<or> (\<exists>m e. import_module env i = Inr m \<and> version_attr m = Inl e)"
  shows "snd (v env p i) = Inr (PStr ''not installed'')"
proof -
  from assms(1,2) have "v env p i = ([Spawn (pip_show env p), Import i], Inr (fallback env i))"
    by (rule v_no_version_line)
  moreover from assms(3) have "fallback env i = PStr ''not installed''"
    by (auto simp: fallback_raised)
  ultimately show ?thesis by simp
qed

theorem not_installed_sentinel_witness:
  "subprocess_run env_a (pip_show env_a ''rvc-python'') = Inr (CompletedProcess 1 [])
   \<and> splitlines [] = []
   \<and> import_module env_a ''rvc'' = Inl ModuleNotFoundError
   \<and> snd (v env_a ''rvc-python'' ''rvc'') = Inr (PStr ''not installed'')"
proof -
  have no: "\<forall>l \<in> set (splitlines (stdout (CompletedProcess 1 []))). \<not> is_version_line l"
    by (simp add: splitlines_Nil)
  have imp: "(\<exists>e. import_module env_a ''rvc'' = Inl e)
         \<or> (\<exists>m e. import_module env_a ''rvc'' = Inr m \<and> version_attr m = Inl e)"
    using import_examples(1) by simp
  from not_installed_sentinel[OF run_a_absent(1) no imp] run_a_absent(1) import_examples(1)
  show ?thesis by (simp add: splitlines_Nil)
qed

text \<open>
  Claim C3. Whenever a lookup attempts the import, it returns a value: no exception of
  the import or of the reading of \<^verbatim>\<open>__version__\<close> leaves it, and each such exception,
  whatever its class, is turned into the string \<^verbatim>\<open>not installed\<close>.
\<close>

theorem fallback_exceptions_caught:
  assumes "Import i \<in> set (fst (v env p i))"
  shows "(\<exists>x. snd (v env p i) = Inr x)
       \<and> (\<forall>e. import_module env i = Inl e \<longrightarrow> snd (v env p i) = Inr (PStr ''not installed''))
       \<and> (\<forall>m e. import_module env i = Inr m \<and> version_attr m = Inl e
              \<longrightarrow> snd (v env p i) = Inr (PStr ''not installed''))"
proof -
  from assms have "v env p i = ([Spawn (pip_show env p), Import i], Inr (fallback env i))"
    by (auto simp: v_def split: sum.splits option.splits)
  then have "snd (v env p i) = Inr (fallback env i)" by simp
  then show ?thesis by (simp add: fallback_raised)
qed

theorem fallback_exceptions_caught_witness:
  "Import ''rvc'' \<in> set (fst (v env_b ''rvc-python'' ''rvc''))
   \<and> import_module env_b ''rvc'' = Inr (Module (Inl AttributeError))
   \<and> version_attr (Module (Inl AttributeError)) = Inl AttributeError
   \<and> snd (v env_b ''rvc-python'' ''rvc'') = Inr (PStr ''not installed'')"
proof -
  have t: "Import ''rvc'' \<in> set (fst (v env_b ''rvc-python'' ''rvc''))" by code_simp
  from fallback_exceptions_caught[OF t] import_examples(3) t show ?thesis by simp
qed

text \<open>
  Claim C6. When the pip query returns, the lookup attempts the import if and only if no
  line of the captured output is a version line; when there is one, the lookup spawns the
  query and nothing else and returns what follows the eight characters \<^verbatim>\<open>version:\<close> of
  the first one, stripped, which may be the empty string.
\<close>

theorem fallback_iff_no_version_line:
  assumes "subprocess_run env (pip_show env p) = Inr r"
  shows "(Import i \<in> set (fst (v env p i))
            \<longleftrightarrow> (\<forall>l \<in> set (splitlines (stdout r)). \<not> is_version_line l))
       \<and> (\<forall>pre l post.
             splitlines (stdout r) = pre @ l # post \<and> (\<forall>x \<in> set pre. \<not> is_version_line x)
               \<and> is_version_line l
             \<longrightarrow> v env p i = ([Spawn (pip_show env p)], Inr (PStr (strip (drop 8 l)))))"
proof (intro conjI allI impI)
  show "Import i \<in> set (fst (v env p i))
            \<longleftrightarrow> (\<forall>l \<in> set (splitlines (stdout r)). \<not> is_version_line l)"
  proof (cases "\<forall>l \<in> set (splitlines (stdout r)). \<not> is_version_line l")
    case True
    with assms have "v env p i = ([Spawn (pip_show env p), Import i], Inr (fallback env i))"
      by (rule v_no_version_line)
    with True show ?thesis by simp
  next
    case False
    then have "\<exists>l \<in> set (splitlines (stdout r)). is_version_line l" by simp
    then obtain s where "scan (splitlines (stdout r)) = Some (Inr s)"
      using scan_some_string by blast
    with assms have "v env p i = ([Spawn (pip_show env p)], Inr (PStr s))" by (simp add: v_def)
    with False show ?thesis by simp
  qed
next
  fix pre l post
  assume "splitlines (stdout r) = pre @ l # post \<and> (\<forall>x \<in> set pre. \<not> is_version_line x)
               \<and> is_version_line l"
  with assms show "v env p i = ([Spawn (pip_show env p)], Inr (PStr (strip (drop 8 l))))"
    by (intro v_version_line) auto
qed

theorem fallback_iff_no_version_line_witness:
  "subprocess_run env_a (pip_show env_a ''torchaudio'') =
     Inr (CompletedProcess 0 ''Name: torchaudio\<newline>VERSION: \<newline>Version: 2.1.0\<newline>'')
   \<and> splitlines ''Name: torchaudio\<newline>VERSION: \<newline>Version: 2.1.0\<newline>''
       = [''Name: torchaudio'', ''VERSION: '', ''Version: 2.1.0'']
   \<and> \<not> is_version_line ''Name: torchaudio'' \<and> is_version_line ''VERSION: ''
   \<and> Import ''torchaudio'' \<notin> set (fst (v env_a ''torchaudio'' ''torchaudio''))
   \<and> v env_a ''torchaudio'' ''torchaudio''
       = ([Spawn [''/usr/bin/python3'', ''-m'', ''pip'', ''show'', ''torchaudio'']], Inr (PStr []))"
proof -
  have pre: "\<forall>x \<in> set [''Name: torchaudio'']. \<not> is_version_line x"
    using version_line_examples(4) by simp
  have st: "strip (drop 8 ''VERSION: '') = []" by code_simp
  have ps: "pip_show env_a ''torchaudio'' = [''/usr/bin/python3'', ''-m'', ''pip'', ''show'', ''torchaudio'']"
    by (simp add: pip_show_def env_a_def)
  from fallback_iff_no_version_line[OF run_a_torchaudio, of "''torchaudio''"]
    lines_a_torchaudio pre version_line_examples(2)
  have 1: "v env_a ''torchaudio'' ''torchaudio''
       = ([Spawn (pip_show env_a ''torchaudio'')], Inr (PStr (strip (drop 8 ''VERSION: ''))))"
    by blast
  from fallback_iff_no_version_line[OF run_a_torchaudio, of "''torchaudio''"]
    lines_a_torchaudio version_line_examples(2)
  have 2: "Import ''torchaudio'' \<notin> set (fst (v env_a ''torchaudio'' ''torchaudio''))"
    by auto
  from 1 2 st ps run_a_torchaudio lines_a_torchaudio version_line_examples(2,4)
  show ?thesis by simp
qed

text \<open>
  Claim C7, as the script has it. When the output of the pip query has no version line,
  the module imports and its \<^verbatim>\<open>__version__\<close> can be read, the lookup returns that object
  itself, with no conversion: a string when the attribute is a string. The claim says the
  string form of the attribute; for the tuple \<^verbatim>\<open>(6, 1, 9)\<close> the lookup returns the tuple and
  not the string \<^verbatim>\<open>(6, 1, 9)\<close>.
\<close>

theorem fallback_returns_attribute:
  assumes "subprocess_run env (pip_show env p) = Inr r"
    and "\<forall>l \<in> set (splitlines (stdout r)). \<not> is_version_line l"
    and "import_module env i = Inr m"
    and "version_attr m = Inr x"
  shows "snd (v env p i) = Inr x"
proof -
  from assms(1,2) have "v env p i = ([Spawn (pip_show env p), Import i], Inr (fallback env i))"
    by (rule v_no_version_line)
  moreover from assms(3,4) have "fallback env i = x" by (rule fallback_attr)
  ultimately show ?thesis by simp
qed

theorem fallback_returns_attribute_witness:
  "subprocess_run env_a (pip_show env_a ''edge-tts'') = Inr (CompletedProcess 1 [])
   \<and> splitlines [] = []
   \<and> import_module env_a ''edge_tts'' = Inr (Module (Inr (PStr ''6.1.9'')))
   \<and> version_attr (Module (Inr (PStr ''6.1.9''))) = Inr (PStr ''6.1.9'')
   \<and> snd (v env_a ''edge-tts'' ''edge_tts'') = Inr (PStr ''6.1.9'')"
proof -
  have no: "\<forall>l \<in> set (splitlines (stdout (CompletedProcess 1 []))). \<not> is_version_line l"
    by (simp add: splitlines_Nil)
  have va: "version_attr (Module (Inr (PStr ''6.1.9''))) = Inr (PStr ''6.1.9'')" by simp
  from fallback_returns_attribute[OF run_a_absent(2) no import_examples(2) va]
    run_a_absent(2) import_examples(2)
  show ?thesis by (simp add: splitlines_Nil)
qed

theorem string_form_counterexample:
  "subprocess_run env_b (pip_show env_b ''edge-tts'') = Inr (CompletedProcess 1 [])
   \<and> splitlines [] = []
   \<and> import_module env_b ''edge_tts'' = Inr (Module (Inr (PList [PInt 6, PInt 1, PInt 9])))
   \<and> snd (v env_b ''edge-tts'' ''edge_tts'') = Inr (PList [PInt 6, PInt 1, PInt 9])
   \<and> snd (v env_b ''edge-tts'' ''edge_tts'') \<noteq> Inr (PStr ''(6, 1, 9)'')"
proof -
  have "snd (v env_b ''edge-tts'' ''edge_tts'') = Inr (PList [PInt 6, PInt 1, PInt 9])"
    by code_simp
  with run_b_absent(2) import_examples(4) show ?thesis by (simp add: splitlines_Nil)
qed

text \<open>
  Claim C10. The exit status of the pip query is not read: a lookup whose query returns
  does the same whatever the status, it raises nothing, and when the captured output has no
  version line it goes on to the import.
\<close>

theorem exit_status_not_inspected:
  assumes "subprocess_run env (pip_show env p) = Inr (CompletedProcess rc out)"
  shows "v (env\<lparr>subprocess_run :=
               (subprocess_run env)(pip_show env p := Inr (CompletedProcess rc' out))\<rparr>) p i
           = v env p i
       \<and> (\<exists>x. snd (v env p i) = Inr x)
       \<and> ((\<forall>l \<in> set (splitlines out). \<not> is_version_line l)
            \<longrightarrow> v env p i = ([Spawn (pip_show env p), Import i], Inr (fallback env i)))"
proof (intro conjI impI)
  define env' where
    "env' = env\<lparr>subprocess_run :=
               (subprocess_run env)(pip_show env p := Inr (CompletedProcess rc' out))\<rparr>"
  have ps: "pip_show env' p = pip_show env p" by (simp add: env'_def pip_show_def)
  have run': "subprocess_run env' (pip_show env p) = Inr (CompletedProcess rc' out)"
    by (simp add: env'_def)
  have fb: "fallback env' i = fallback env i" by (simp add: env'_def fallback_def)
  have "v env' p i = v env p i"
    by (simp add: v_def ps run' fb assms split: option.splits sum.splits)
  then show "v (env\<lparr>subprocess_run :=
               (subprocess_run env)(pip_show env p := Inr (CompletedProcess rc' out))\<rparr>) p i
           = v env p i"
    by (simp only: env'_def)
  from assms show "\<exists>x. snd (v env p i) = Inr x" by (rule v_returns)
next
  assume "\<forall>l \<in> set (splitlines out). \<not> is_version_line l"
  then have "\<forall>l \<in> set (splitlines (stdout (CompletedProcess rc out))). \<not> is_version_line l"
    by simp
  with assms show "v env p i = ([Spawn (pip_show env p), Import i], Inr (fallback env i))"
    by (rule v_no_version_line)
qed

theorem exit_status_not_inspected_witness:
  "subprocess_run env_a (pip_show env_a ''edge-tts'') = Inr (CompletedProcess 1 [])
   \<and> splitlines [] = []
   \<and> v (env_a\<lparr>subprocess_run :=
               (subprocess_run env_a)(pip_show env_a ''edge-tts'' := Inr (CompletedProcess 0 []))\<rparr>)
        ''edge-tts'' ''edge_tts''
       = v env_a ''edge-tts'' ''edge_tts''
   \<and> v env_a ''edge-tts'' ''edge_tts''
       = ([Spawn (pip_show env_a ''edge-tts''), Import ''edge_tts''], Inr (PStr ''6.1.9''))"
proof -
  have fb: "fallback env_a ''edge_tts'' = PStr ''6.1.9''"
    by (simp add: fallback_def import_examples(2))
  from exit_status_not_inspected[OF run_a_absent(2), of 0 "''edge_tts''"] fb run_a_absent(2)
  show ?thesis by (simp add: splitlines_Nil)
qed

section \<open>The script\<close>

text \<open>
  Claim C9. A run that reaches the output has made the four lookups in the order
  rvc-python, edge-tts, torch, torchaudio, each with its own module name (\<^verbatim>\<open>rvc\<close>,
  \<^verbatim>\<open>edge_tts\<close>, \<^verbatim>\<open>torch\<close>, \<^verbatim>\<open>torchaudio\<close>), and has printed the four entries in that
  order: every run is the four queries, each followed by its import or not, and then the one
  \<^verbatim>\<open>print\<close> of \<open>output_text\<close> of the four rendered values.
\<close>

theorem entries_in_fixed_order:
  assumes "exits_ok (main env)"
  shows "\<exists>a b c d ja jb jc jd t1 t2 t3 t4.
      v env ''rvc-python'' ''rvc'' = (Spawn (pip_show env ''rvc-python'') # t1, Inr a)
    \<and> v env ''edge-tts'' ''edge_tts'' = (Spawn (pip_show env ''edge-tts'') # t2, Inr b)
    \<and> v env ''torch'' ''torch'' = (Spawn (pip_show env ''torch'') # t3, Inr c)
    \<and> v env ''torchaudio'' ''torchaudio'' = (Spawn (pip_show env ''torchaudio'') # t4, Inr d)
    \<and> t1 \<in> set [[], [Import ''rvc'']] \<and> t2 \<in> set [[], [Import ''edge_tts'']]
    \<and> t3 \<in> set [[], [Import ''torch'']] \<and> t4 \<in> set [[], [Import ''torchaudio'']]
    \<and> encode 1 a = Inr ja \<and> encode 1 b = Inr jb \<and> encode 1 c = Inr jc \<and> encode 1 d = Inr jd
    \<and> main env =
        (Spawn (pip_show env ''rvc-python'') # t1 @ Spawn (pip_show env ''edge-tts'') # t2
           @ Spawn (pip_show env ''torch'') # t3 @ Spawn (pip_show env ''torchaudio'') # t4
           @ [Print (output_text ja jb jc jd)],
         Inr ())"
proof -
  from assms obtain a b c d s where
    r: "snd (v env ''rvc-python'' ''rvc'') = Inr a" "snd (v env ''edge-tts'' ''edge_tts'') = Inr b"
       "snd (v env ''torch'' ''torch'') = Inr c" "snd (v env ''torchaudio'' ''torchaudio'') = Inr d"
    and e: "encode 0 (PDict [(''rvc-python'', a), (''edge-tts'', b), (''torch'', c), (''torchaudio'', d)])
             = Inr s"
    unfolding main_ok_iff by blast
  from r(1) obtain t1 where 1: "v env ''rvc-python'' ''rvc'' = (Spawn (pip_show env ''rvc-python'') # t1, Inr a)"
    "t1 \<in> set [[], [Import ''rvc'']]" using v_shape by blast
  from r(2) obtain t2 where 2: "v env ''edge-tts'' ''edge_tts'' = (Spawn (pip_show env ''edge-tts'') # t2, Inr b)"
    "t2 \<in> set [[], [Import ''edge_tts'']]" using v_shape by blast
  from r(3) obtain t3 where 3: "v env ''torch'' ''torch'' = (Spawn (pip_show env ''torch'') # t3, Inr c)"
    "t3 \<in> set [[], [Import ''torch'']]" using v_shape by blast
  from r(4) obtain t4 where 4: "v env ''torchaudio'' ''torchaudio'' = (Spawn (pip_show env ''torchaudio'') # t4, Inr d)"
    "t4 \<in> set [[], [Import ''torchaudio'']]" using v_shape by blast
  from e obtain ja jb jc jd where j: "encode 1 a = Inr ja" "encode 1 b = Inr jb" "encode 1 c = Inr jc"
    "encode 1 d = Inr jd" and t: "s @ [CHR 0x0A] = output_text ja jb jc jd"
    using encode_dict_text by blast
  from main_ok[OF 1(1) 2(1) 3(1) 4(1) e] t
  have "main env =
        (Spawn (pip_show env ''rvc-python'') # t1 @ Spawn (pip_show env ''edge-tts'') # t2
           @ Spawn (pip_show env ''torch'') # t3 @ Spawn (pip_show env ''torchaudio'') # t4
           @ [Print (output_text ja jb jc jd)],
         Inr ())"
    by simp
  with 1 2 3 4 j show ?thesis by blast
qed


theorem entries_in_fixed_order_witness:
  "exits_ok (main env_a)
   \<and> (\<exists>a b c d ja jb jc jd t1 t2 t3 t4.
      v env_a ''rvc-python'' ''rvc'' = (Spawn (pip_show env_a ''rvc-python'') # t1, Inr a)
    \<and> v env_a ''edge-tts'' ''edge_tts'' = (Spawn (pip_show env_a ''edge-tts'') # t2, Inr b)
    \<and> v env_a ''torch'' ''torch'' = (Spawn (pip_show env_a ''torch'') # t3, Inr c)
    \<and> v env_a ''torchaudio'' ''torchaudio'' = (Spawn (pip_show env_a ''torchaudio'') # t4, Inr d)
    \<and> t1 \<in> set [[], [Import ''rvc'']] \<and> t2 \<in> set [[], [Import ''edge_tts'']]
    \<and> t3 \<in> set [[], [Import ''torch'']] \<and> t4 \<in> set [[], [Import ''torchaudio'']]
    \<and> encode 1 a = Inr ja \<and> encode 1 b = Inr jb \<and> encode 1 c = Inr jc \<and> encode 1 d = Inr jd
    \<and> main env_a =
        (Spawn (pip_show env_a ''rvc-python'') # t1 @ Spawn (pip_show env_a ''edge-tts'') # t2
           @ Spawn (pip_show env_a ''torch'') # t3 @ Spawn (pip_show env_a ''torchaudio'') # t4
           @ [Print (output_text ja jb jc jd)],
         Inr ()))
   \<and> main env_a =
     ([Spawn [''/usr/bin/python3'', ''-m'', ''pip'', ''show'', ''rvc-python''], Import ''rvc'',
       Spawn [''/usr/bin/python3'', ''-m'', ''pip'', ''show'', ''edge-tts''], Import ''edge_tts'',
       Spawn [''/usr/bin/python3'', ''-m'', ''pip'', ''show'', ''torch''],
       Spawn [''/usr/bin/python3'', ''-m'', ''pip'', ''show'', ''torchaudio''],
       Print (output_text (quoted ''not installed'') (quoted ''6.1.9'') (quoted ''2.1.0'')
                (quoted []))],
      Inr ())"
  using entries_in_fixed_order[OF exits_ok_a] exits_ok_a main_a by (intro conjI)

text \<open>
  Claim C8, as the script has it. When each of the four lookups resolves to a string (the
  version read from a version line and the sentinel always are one; a \<^verbatim>\<open>__version__\<close> is
  one when the module has a string there), the script succeeds and prints a well-formed
  JSON text: an object with exactly the keys rvc-python, edge-tts, torch and torchaudio, in
  that order, whose values are those four strings. The claim says every value is a string
  whatever the path, but the import fallback returns the attribute as it is: with the tuple
  \<^verbatim>\<open>(6, 1, 9)\<close> as the version attribute of \<^verbatim>\<open>edge_tts\<close> the printed value of edge-tts is
  the array \<^verbatim>\<open>[6, 1, 9]\<close>, and with the float not-a-number it is the bare word \<^verbatim>\<open>NaN\<close>,
  so that the printed text is no JSON text at all.
\<close>

theorem output_is_json_object:
  assumes "snd (v env ''rvc-python'' ''rvc'') = Inr (PStr a)"
    and "snd (v env ''edge-tts'' ''edge_tts'') = Inr (PStr b)"
    and "snd (v env ''torch'' ''torch'') = Inr (PStr c)"
    and "snd (v env ''torchaudio'' ''torchaudio'') = Inr (PStr d)"
  shows "exits_ok (main env)
       \<and> json_loads (printed (fst (main env)))
           = Some (JObj [(''rvc-python'', JStr a), (''edge-tts'', JStr b),
                         (''torch'', JStr c), (''torchaudio'', JStr d)])"
proof -
  obtain s where e: "encode 0 (PDict [(''rvc-python'', PStr a), (''edge-tts'', PStr b),
      (''torch'', PStr c), (''torchaudio'', PStr d)]) = Inr s"
    by (simp only: encode_dict_strings)
  have v: "v env ''rvc-python'' ''rvc'' = (fst (v env ''rvc-python'' ''rvc''), Inr (PStr a))"
    "v env ''edge-tts'' ''edge_tts'' = (fst (v env ''edge-tts'' ''edge_tts''), Inr (PStr b))"
    "v env ''torch'' ''torch'' = (fst (v env ''torch'' ''torch''), Inr (PStr c))"
    "v env ''torchaudio'' ''torchaudio'' = (fst (v env ''torchaudio'' ''torchaudio''), Inr (PStr d))"
    using assms by (simp_all add: prod_eq_iff)
  note m = main_ok[OF v e]
  then have ok: "exits_ok (main env)" by (simp add: exits_ok_def)
  from m have "printed (fst (main env)) = s @ [CHR 0x0A]"
    by (simp add: printed_append printed_v)
  moreover from e have "json_loads (s @ [CHR 0x0A])
     = Some (JObj [(''rvc-python'', JStr a), (''edge-tts'', JStr b),
                   (''torch'', JStr c), (''torchaudio'', JStr d)])"
    by (rule json_loads_dict_strings)
  ultimately show ?thesis using ok by simp
qed

theorem output_is_json_object_witness:
  "snd (v env_a ''rvc-python'' ''rvc'') = Inr (PStr ''not installed'')
   \<and> snd (v env_a ''edge-tts'' ''edge_tts'') = Inr (PStr ''6.1.9'')
   \<and> snd (v env_a ''torch'' ''torch'') = Inr (PStr ''2.1.0'')
   \<and> snd (v env_a ''torchaudio'' ''torchaudio'') = Inr (PStr [])
   \<and> exits_ok (main env_a)
   \<and> json_loads (printed (fst (main env_a)))
       = Some (JObj [(''rvc-python'', JStr ''not installed''), (''edge-tts'', JStr ''6.1.9''),
                     (''torch'', JStr ''2.1.0''), (''torchaudio'', JStr [])])"
proof -
  have 1: "snd (v env_a ''rvc-python'' ''rvc'') = Inr (PStr ''not installed'')" by code_simp
  have 2: "snd (v env_a ''edge-tts'' ''edge_tts'') = Inr (PStr ''6.1.9'')" by code_simp
  have 3: "snd (v env_a ''torch'' ''torch'') = Inr (PStr ''2.1.0'')" by code_simp
  have 4: "snd (v env_a ''torchaudio'' ''torchaudio'') = Inr (PStr [])" by code_simp
  from output_is_json_object[OF 1 2 3 4] 1 2 3 4 show ?thesis by (intro conjI) simp_all
qed

theorem all_values_strings_counterexample:
  "exits_ok (main env_b)
   \<and> snd (v env_b ''edge-tts'' ''edge_tts'') = Inr (PList [PInt 6, PInt 1, PInt 9])
   \<and> json_loads (printed (fst (main env_b)))
       = Some (JObj [(''rvc-python'', JStr ''not installed''),
                     (''edge-tts'', JArr [JNum 6, JNum 1, JNum 9]),
                     (''torch'', JStr ''2.1.0''), (''torchaudio'', JStr [])])
   \<and> exits_ok (main env_f)
   \<and> snd (v env_f ''edge-tts'' ''edge_tts'') = Inr (PFloat NaN)
   \<and> printed (fst (main env_f))
       = output_text (quoted ''not installed'') ''NaN'' (quoted ''2.1.0'') (quoted [])
   \<and> json_loads (printed (fst (main env_f))) = None"
  by code_simp

text \<open>
  Claim C5. When \<^verbatim>\<open>subprocess.run\<close> raises in one of the four lookups, the lookup ends
  with that exception after the spawn alone (no import, no sentinel), the script ends with
  an exception and has printed nothing; the exception the script ends with is that one
  when the queries of the lookups before it returned.
\<close>

theorem subprocess_failure_propagates:
  assumes "(p, i) \<in> set lookups"
    and "subprocess_run env (pip_show env p) = Inl e"
  shows "v env p i = ([Spawn (pip_show env p)], Inl e)
       \<and> \<not> exits_ok (main env) \<and> printed (fst (main env)) = []
       \<and> ((\<forall>(q, j) \<in> set (takeWhile (\<lambda>x. x \<noteq> (p, i)) lookups).
              \<exists>r. subprocess_run env (pip_show env q) = Inr r)
            \<longrightarrow> snd (main env) = Inl e)"
proof -
  from assms(2) have r: "v env p i = ([Spawn (pip_show env p)], Inl e)" by (rule v_raises)
  have n: "\<not> exits_ok (main env)"
  proof
    assume "exits_ok (main env)"
    then obtain a b c d where
      "snd (v env ''rvc-python'' ''rvc'') = Inr a" "snd (v env ''edge-tts'' ''edge_tts'') = Inr b"
      "snd (v env ''torch'' ''torch'') = Inr c" "snd (v env ''torchaudio'' ''torchaudio'') = Inr d"
      unfolding main_ok_iff by blast
    with assms(1) r show False by (auto simp: lookups_def)
  qed
  then have s: "printed (fst (main env)) = []" by (rule main_fail_silent)
  have f: "snd (main env) = Inl e"
    if h: "\<forall>(q, j) \<in> set (takeWhile (\<lambda>x. x \<noteq> (p, i)) lookups).
              \<exists>r. subprocess_run env (pip_show env q) = Inr r"
  proof -
    from assms(1) consider
      (1) "p = ''rvc-python''" "i = ''rvc''" | (2) "p = ''edge-tts''" "i = ''edge_tts''"
      | (3) "p = ''torch''" "i = ''torch''" | (4) "p = ''torchaudio''" "i = ''torchaudio''"
      by (auto simp: lookups_def)
    then show ?thesis
    proof cases
      case 1
      with r show ?thesis by (simp add: main_def io_bind_def)
    next
      case 2
      with h obtain r1 where "subprocess_run env (pip_show env ''rvc-python'') = Inr r1"
        by (auto simp: lookups_def)
      then obtain t1 a where "v env ''rvc-python'' ''rvc'' = (t1, Inr a)"
        by (rule v_returns_pair)
      with 2 r show ?thesis by (simp add: main_def io_bind_def)
    next
      case 3
      with h obtain r1 r2 where "subprocess_run env (pip_show env ''rvc-python'') = Inr r1"
        "subprocess_run env (pip_show env ''edge-tts'') = Inr r2"
        by (auto simp: lookups_def)
      then obtain t1 a t2 b where "v env ''rvc-python'' ''rvc'' = (t1, Inr a)"
        "v env ''edge-tts'' ''edge_tts'' = (t2, Inr b)"
        using v_returns_pair by metis
      with 3 r show ?thesis by (simp add: main_def io_bind_def)
    next
      case 4
      with h obtain r1 r2 r3 where "subprocess_run env (pip_show env ''rvc-python'') = Inr r1"
        "subprocess_run env (pip_show env ''edge-tts'') = Inr r2"
        "subprocess_run env (pip_show env ''torch'') = Inr r3"
        by (auto simp: lookups_def)
      then obtain t1 a t2 b t3 c where "v env ''rvc-python'' ''rvc'' = (t1, Inr a)"
        "v env ''edge-tts'' ''edge_tts'' = (t2, Inr b)" "v env ''torch'' ''torch'' = (t3, Inr c)"
        using v_returns_pair by metis
      with 4 r show ?thesis by (simp add: main_def io_bind_def)
    qed
  qed
  from r n s f show ?thesis by blast
qed

theorem subprocess_failure_propagates_witness:
  "(''torch'', ''torch'') \<in> set lookups
   \<and> subprocess_run env_e (pip_show env_e ''torch'') = Inl PermissionError
   \<and> subprocess_run env_e (pip_show env_e ''rvc-python'') = Inr (CompletedProcess 1 [])
   \<and> subprocess_run env_e (pip_show env_e ''edge-tts'') = Inr (CompletedProcess 1 [])
   \<and> v env_e ''torch'' ''torch'' = ([Spawn (pip_show env_e ''torch'')], Inl PermissionError)
   \<and> \<not> exits_ok (main env_e) \<and> printed (fst (main env_e)) = []
   \<and> snd (main env_e) = Inl PermissionError"
proof -
  have 1: "(''torch'', ''torch'') \<in> set lookups" by (simp add: lookups_def)
  have 2: "subprocess_run env_e (pip_show env_e ''torch'') = Inl PermissionError"
    by (simp add: env_e_def env_a_def pip_show_def)
  have 3: "subprocess_run env_e (pip_show env_e ''rvc-python'') = Inr (CompletedProcess 1 [])"
    "subprocess_run env_e (pip_show env_e ''edge-tts'') = Inr (CompletedProcess 1 [])"
    by (simp_all add: env_e_def env_a_def pip_show_def)
  have 4: "\<forall>(q, j) \<in> set (takeWhile (\<lambda>x. x \<noteq> (''torch'', ''torch'')) lookups).
              \<exists>r. subprocess_run env_e (pip_show env_e q) = Inr r"
    using 3 by (simp add: lookups_def)
  from subprocess_failure_propagates[OF 1 2] 1 2 3 4 show ?thesis by (intro conjI) simp_all
qed




end
